theory Spec2Isabelle
  imports Complex_Main
begin

section \<open>Values and records read from the controller\<close>

text \<open>
  The plugin \<^verbatim>\<open>plugins/inventory/gns3.py\<close> receives JSON decoded by \<^verbatim>\<open>json.loads\<close>.
  A decoded value is one of Python's \<^verbatim>\<open>None\<close>, \<^verbatim>\<open>bool\<close>, \<^verbatim>\<open>int\<close>, \<^verbatim>\<open>float\<close>,
  \<^verbatim>\<open>str\<close>, \<^verbatim>\<open>list\<close> or \<^verbatim>\<open>dict\<close>. Python integers are unbounded, hence \<open>int\<close>.
\<close>

datatype pyval =
    PNone
  | PBool bool
  | PInt int
  | PFloat real
  | PStr string
  | PList "pyval list"
  | PDict "(string \<times> pyval) list"

text \<open>
  \<^verbatim>\<open>isinstance(v, int)\<close>: in Python \<^verbatim>\<open>bool\<close> is a subclass of \<^verbatim>\<open>int\<close>, with
  \<^verbatim>\<open>True == 1\<close> and \<^verbatim>\<open>False == 0\<close>; \<open>int_value\<close> gives the integer a value
  stands for under \<^verbatim>\<open>+\<close>, and \<open>None\<close> when \<^verbatim>\<open>isinstance(v, int)\<close> is false.
\<close>

fun int_value :: "pyval \<Rightarrow> int option" where
  "int_value (PInt i) = Some i"
| "int_value (PBool b) = Some (if b then 1 else 0)"
| "int_value PNone = None"
| "int_value (PFloat r) = None"
| "int_value (PStr s) = None"
| "int_value (PList xs) = None"
| "int_value (PDict kvs) = None"

definition isinstance_int :: "pyval \<Rightarrow> bool" where
  "isinstance_int v = (int_value v \<noteq> None)"

text \<open>
  The text fields the plugin computes with (\<^verbatim>\<open>project_id\<close>, \<^verbatim>\<open>name\<close>, \<^verbatim>\<open>node_id\<close>,
  \<^verbatim>\<open>node_type\<close>, \<^verbatim>\<open>console_host\<close>, ...) are strings in the controller's API;
  \<^verbatim>\<open>d.get(key)\<close> gives \<^verbatim>\<open>None\<close> for a missing key, and JSON \<^verbatim>\<open>null\<close> decodes to
  \<^verbatim>\<open>None\<close> too. Such a field is a \<open>string option\<close>. A character of a \<open>string\<close> stands
  for one character of a Python \<^verbatim>\<open>str\<close>.
\<close>

text \<open>Python truthiness of a \<^verbatim>\<open>str | None\<close>: \<^verbatim>\<open>None\<close> and \<^verbatim>\<open>""\<close> are false.\<close>

definition truthy :: "string option \<Rightarrow> bool" where
  "truthy v = (case v of None \<Rightarrow> False | Some s \<Rightarrow> s \<noteq> [])"

text \<open>\<^verbatim>\<open>a or b\<close> on such values.\<close>

definition py_or :: "string option \<Rightarrow> string option \<Rightarrow> string option" where
  "py_or a b = (if truthy a then a else b)"

text \<open>Formatting inside an f-string: \<^verbatim>\<open>f"{v}"\<close> prints \<^verbatim>\<open>None\<close> as the text None.\<close>

definition fmt :: "string option \<Rightarrow> string" where
  "fmt v = (case v of None \<Rightarrow> ''None'' | Some s \<Rightarrow> s)"

text \<open>A value stored as a host variable.\<close>

definition of_str :: "string option \<Rightarrow> pyval" where
  "of_str v = (case v of None \<Rightarrow> PNone | Some s \<Rightarrow> PStr s)"

text \<open>
  An entry of the array returned by \<^verbatim>\<open>GET {base}/v2/projects\<close>; the fields are what
  \<^verbatim>\<open>p.get("project_id")\<close> and \<^verbatim>\<open>p.get("name")\<close> return.
\<close>

record project =
  p_project_id :: "string option"
  p_name :: "string option"

text \<open>
  An entry of the array returned by \<^verbatim>\<open>GET {base}/v2/projects/{project_id}/nodes\<close>.
  The plugin tests the type of \<^verbatim>\<open>console\<close> at run time, so that field stays a raw value.
\<close>

record node =
  node_id :: "string option"
  name :: "string option"
  node_type :: "string option"
  status :: "string option"
  console_type :: "string option"
  console_host :: "string option"
  console :: pyval

section \<open>Errors\<close>

text \<open>
  Every failure of the plugin is an \<^verbatim>\<open>AnsibleParserError\<close>; the constructors separate
  them by the place that raises, the argument is the message. \<open>TransportError\<close> keeps the
  requested URL and the underlying exception (\<^verbatim>\<open>orig_exc\<close>); \<open>CompositionError\<close> is what
  the constructed-variables mixin raises under \<^verbatim>\<open>strict\<close>.
\<close>

datatype error =
    NotFound string
  | AmbiguousSelector string
  | MissingSelector string
  | TransportError string string
  | CompositionError string

section \<open>Project resolution\<close>

text \<open>\<^verbatim>\<open>InventoryModule._find_project_id\<close> (lines 111 to 130).\<close>

definition find_project_id ::
  "project list \<Rightarrow> string option \<Rightarrow> string option \<Rightarrow> error + string option" where
  "find_project_id projects project_id project_name =
    (if truthy project_id then
       (if list_ex (\<lambda>p. p_project_id p = project_id) projects then Inr project_id
        else Inl (NotFound (''GNS3 inventory: project_id not found: '' @ fmt project_id)))
     else if truthy project_name then
       (let matches = filter (\<lambda>p. p_name p = project_name) projects in
        if matches = [] then
          Inl (NotFound (''GNS3 inventory: project_name not found: '' @ fmt project_name))
        else if length matches > 1 then
          Inl (AmbiguousSelector (''GNS3 inventory: multiple projects match name '' @ [CHR 0x27]
                 @ fmt project_name @ [CHR 0x27] @ ''. Use project_id instead.''))
        else Inr (p_project_id (hd matches)))
     else Inl (MissingSelector ''GNS3 inventory: you must set either project_id or project_name.''))"

section \<open>Configuration, environment and state\<close>

text \<open>
  The options read with \<^verbatim>\<open>get_option\<close> in \<^verbatim>\<open>parse\<close> (lines 138 to 154).
  \<open>parent_group\<close> is the option \<^verbatim>\<open>group\<close>, \<open>cache_option\<close> the option \<^verbatim>\<open>cache\<close>,
  \<open>cache_key\<close> the result of \<^verbatim>\<open>get_cache_key(path)\<close>. \<open>port_offset\<close> is the value of
  \<^verbatim>\<open>int(self.get_option("port_offset") or 0)\<close>.
\<close>

record config =
  url :: string
  project_id :: "string option"
  project_name :: "string option"
  validate_certs :: bool
  parent_group :: string
  host_naming :: string
  port_offset :: int
  group_by_node_type :: bool
  cache_option :: bool
  cache_key :: string

text \<open>The cached payload \<^verbatim>\<open>{"project_id": pid, "nodes": nodes}\<close> (line 167).\<close>

record source =
  src_project_id :: "string option"
  src_nodes :: "node list"

subsection \<open>The inventory store\<close>

text \<open>
  Modelled from the spec: the inventory data store (\<^verbatim>\<open>self.inventory\<close> with
  \<^verbatim>\<open>add_group\<close>, \<^verbatim>\<open>add_host\<close>, \<^verbatim>\<open>set_variable\<close>, \<^verbatim>\<open>add_child\<close>) belongs to Ansible and
  is not in the repository. The spec describes it as a container of groups (a name and a
  set of member host identifiers) and hosts (an identifier and a variable map), in which
  creating an existing group is a no-op.
\<close>

record inventory =
  groups :: "string \<rightharpoonup> string set"
  hosts :: "string \<rightharpoonup> (string \<rightharpoonup> pyval)"

definition empty_inventory :: inventory where
  "empty_inventory = \<lparr>groups = Map.empty, hosts = Map.empty\<rparr>"

definition members :: "inventory \<Rightarrow> string \<Rightarrow> string set" where
  "members iv g = (case groups iv g of None \<Rightarrow> {} | Some hs \<Rightarrow> hs)"

definition vars_of :: "inventory \<Rightarrow> string \<Rightarrow> (string \<rightharpoonup> pyval)" where
  "vars_of iv h = (case hosts iv h of None \<Rightarrow> Map.empty | Some vs \<Rightarrow> vs)"

definition add_group :: "string \<Rightarrow> inventory \<Rightarrow> inventory" where
  "add_group g iv =
    (case groups iv g of
       None \<Rightarrow> iv\<lparr>groups := (groups iv)(g \<mapsto> {})\<rparr>
     | Some hs \<Rightarrow> iv)"

definition add_child :: "string \<Rightarrow> string \<Rightarrow> inventory \<Rightarrow> inventory" where
  "add_child g h iv = iv\<lparr>groups := (groups iv)(g \<mapsto> insert h (members iv g))\<rparr>"

definition add_host :: "string \<Rightarrow> string \<Rightarrow> inventory \<Rightarrow> inventory" where
  "add_host h g iv =
    add_child g h
      (case hosts iv h of
         None \<Rightarrow> iv\<lparr>hosts := (hosts iv)(h \<mapsto> Map.empty)\<rparr>
       | Some vs \<Rightarrow> iv)"

definition set_variable :: "string \<Rightarrow> string \<Rightarrow> pyval \<Rightarrow> inventory \<Rightarrow> inventory" where
  "set_variable h k v iv = iv\<lparr>hosts := (hosts iv)(h \<mapsto> (vars_of iv h)(k \<mapsto> v))\<rparr>"

subsection \<open>The environment of a run\<close>

text \<open>
  What \<^verbatim>\<open>parse\<close> calls outside the repository, taken as parameters:
  \<^item> \<open>urlparse_hostname\<close>: \<^verbatim>\<open>urlparse(base_url).hostname\<close> of the standard library;
  \<^item> \<open>open_projects\<close>, \<open>open_nodes\<close>: \<^verbatim>\<open>open_url\<close>, \<^verbatim>\<open>resp.read()\<close> and
    \<^verbatim>\<open>json.loads\<close> on a URL with the \<^verbatim>\<open>validate_certs\<close> flag, giving the decoded array or
    the exception raised (\<open>Inl\<close>, its text);
  \<^item> \<open>constructed\<close>: the three calls of the \<^verbatim>\<open>Constructable\<close> mixin that end each
    iteration (lines 228 to 231), for one host; under \<^verbatim>\<open>strict\<close> they may raise.
\<close>

record env =
  urlparse_hostname :: "string \<Rightarrow> string option"
  open_projects :: "string \<Rightarrow> bool \<Rightarrow> string + project list"
  open_nodes :: "string \<Rightarrow> bool \<Rightarrow> string + node list"
  constructed :: "string \<Rightarrow> inventory \<Rightarrow> error option \<times> inventory"

text \<open>
  With the default options (\<^verbatim>\<open>compose\<close>, \<^verbatim>\<open>groups\<close> and \<^verbatim>\<open>keyed_groups\<close> empty) the
  three calls change nothing.
\<close>

definition no_constructed :: "string \<Rightarrow> inventory \<Rightarrow> error option \<times> inventory" where
  "no_constructed host iv = (None, iv)"

text \<open>
  What a run reads and writes: the inventory, the cache (\<^verbatim>\<open>self._cache\<close>) and the list
  of the URLs requested so far, in order.
\<close>

record state =
  inventory :: inventory
  cache :: "string \<rightharpoonup> source"
  requests :: "string list"

section \<open>Fetching\<close>

text \<open>\<^verbatim>\<open>_controller_host_from_url\<close> (lines 87 and 88).\<close>

definition controller_host_from_url :: "env \<Rightarrow> string \<Rightarrow> string" where
  "controller_host_from_url e base_url =
    (case urlparse_hostname e base_url of
       None \<Rightarrow> base_url
     | Some h \<Rightarrow> if h \<noteq> [] then h else base_url)"

text \<open>\<^verbatim>\<open>str.rstrip("/")\<close>.\<close>

definition rstrip_slash :: "string \<Rightarrow> string" where
  "rstrip_slash s = rev (dropWhile (\<lambda>c. c = CHR ''/'') (rev s))"

text \<open>
  \<^verbatim>\<open>_http_get_json\<close> (lines 99 to 109): one request, and any exception is wrapped with
  the URL into the plugin's error.
\<close>

definition http_get_json ::
  "(string \<Rightarrow> bool \<Rightarrow> string + 'a) \<Rightarrow> string \<Rightarrow> bool \<Rightarrow> state \<Rightarrow> (error + 'a) \<times> state" where
  "http_get_json opener u vc st =
    (case opener u vc of
       Inl exc \<Rightarrow> (Inl (TransportError u exc), st\<lparr>requests := requests st @ [u]\<rparr>)
     | Inr v \<Rightarrow> (Inr v, st\<lparr>requests := requests st @ [u]\<rparr>))"

section \<open>Mapping nodes to hosts\<close>

text \<open>Lines 187 to 190: the identifier by naming policy; \<open>None\<close> is \<^verbatim>\<open>continue\<close>.\<close>

definition host_candidate :: "string \<Rightarrow> node \<Rightarrow> string option" where
  "host_candidate naming n =
    (let host = (if naming = ''name'' then name n else node_id n);
         host = py_or (py_or host (name n)) (node_id n)
     in if truthy host then host else None)"

text \<open>\<^verbatim>\<open>s[-6:]\<close>: the last six characters, or all of a shorter string.\<close>

definition last6 :: "string \<Rightarrow> string" where
  "last6 s = drop (length s - 6) s"

text \<open>Line 193.\<close>

definition dedup_suffix :: "node \<Rightarrow> string" where
  "dedup_suffix n =
    (case node_id n of
       None \<Rightarrow> ''dup''
     | Some i \<Rightarrow> if i \<noteq> [] then last6 i else ''dup'')"

text \<open>Lines 192 to 194.\<close>

definition dedup :: "node \<Rightarrow> string \<Rightarrow> string set \<Rightarrow> string" where
  "dedup n host seen = (if host \<in> seen then host @ ''_'' @ dedup_suffix n else host)"

text \<open>Lines 187 to 194 for one node: the final identifier, or \<open>None\<close> for a skipped node.\<close>

definition resolve_host :: "string \<Rightarrow> node \<Rightarrow> string set \<Rightarrow> string option" where
  "resolve_host naming n seen =
    (case host_candidate naming n of
       None \<Rightarrow> None
     | Some c \<Rightarrow> Some (dedup n c seen))"

text \<open>Lines 210 to 212.\<close>

definition connection_host :: "string \<Rightarrow> node \<Rightarrow> string" where
  "connection_host controller_host n =
    (let h = (case console_host n of
                None \<Rightarrow> controller_host
              | Some s \<Rightarrow> if s \<noteq> [] then s else controller_host)
     in if h = ''0.0.0.0'' \<or> h = ''::'' then controller_host else h)"

text \<open>
  Lines 200 to 220: the \<^verbatim>\<open>set_variable\<close> calls made for one node, in order, as pairs of
  variable name and value.
\<close>

definition host_vars :: "config \<Rightarrow> string \<Rightarrow> string option \<Rightarrow> node \<Rightarrow> (string \<times> pyval) list" where
  "host_vars cfg controller_host pid n =
    [(''gns3_project_id'', of_str pid),
     (''gns3_node_id'', of_str (node_id n)),
     (''gns3_node_name'', of_str (name n)),
     (''gns3_node_type'', of_str (node_type n)),
     (''gns3_status'', of_str (status n)),
     (''gns3_console_type'', of_str (console_type n)),
     (''gns3_console_host'', of_str (console_host n)),
     (''gns3_console_port'', console n)] @
    (let ch = connection_host controller_host n;
         console_port = console n
     in case int_value console_port of
          Some i \<Rightarrow> [(''ansible_host'', PStr ch), (''ansible_port'', PInt (i + port_offset cfg))]
        | None \<Rightarrow> [(''ansible_host'', PStr ch)])"

fun set_variables :: "string \<Rightarrow> (string \<times> pyval) list \<Rightarrow> inventory \<Rightarrow> inventory" where
  "set_variables host [] iv = iv"
| "set_variables host ((k, v) # kvs) iv = set_variables host kvs (set_variable host k v iv)"

text \<open>Lines 223 to 226.\<close>

definition group_by_type :: "config \<Rightarrow> node \<Rightarrow> string \<Rightarrow> inventory \<Rightarrow> inventory" where
  "group_by_type cfg n host iv =
    (if group_by_node_type cfg \<and> truthy (node_type n) then
       (let g = ''gns3_type_'' @ fmt (node_type n)
        in add_child g host (add_group g iv))
     else iv)"

text \<open>Lines 197 to 226 for one node whose final identifier is \<open>host\<close>.\<close>

definition emit_host ::
  "config \<Rightarrow> string \<Rightarrow> string option \<Rightarrow> node \<Rightarrow> string \<Rightarrow> inventory \<Rightarrow> inventory" where
  "emit_host cfg controller_host pid n host iv =
    group_by_type cfg n host
      (set_variables host (host_vars cfg controller_host pid n)
        (add_host host (parent_group cfg) iv))"

text \<open>
  The loop of lines 181 to 231, threading the set \<^verbatim>\<open>seen\<close> and the inventory. An error
  of the constructed-variables calls ends the run where it stands.
\<close>

fun process_nodes ::
  "config \<Rightarrow> env \<Rightarrow> string \<Rightarrow> string option \<Rightarrow> node list \<Rightarrow> string set \<Rightarrow> inventory
    \<Rightarrow> error option \<times> string set \<times> inventory" where
  "process_nodes cfg e controller_host pid [] seen iv = (None, seen, iv)"
| "process_nodes cfg e controller_host pid (n # ns) seen iv =
    (case resolve_host (host_naming cfg) n seen of
       None \<Rightarrow> process_nodes cfg e controller_host pid ns seen iv
     | Some host \<Rightarrow>
         (case constructed e host (emit_host cfg controller_host pid n host iv) of
            (Some err, iv') \<Rightarrow> (Some err, insert host seen, iv')
          | (None, iv') \<Rightarrow> process_nodes cfg e controller_host pid ns (insert host seen) iv'))"

text \<open>Lines 172 to 231: from the payload to the inventory.\<close>

definition build :: "config \<Rightarrow> env \<Rightarrow> string \<Rightarrow> source \<Rightarrow> state \<Rightarrow> error option \<times> state" where
  "build cfg e controller_host src st =
    (let pid = src_project_id src;
         nodes = src_nodes src;
         iv0 = add_group (parent_group cfg) (inventory st)
     in case process_nodes cfg e controller_host pid nodes {} iv0 of
          (r, seen, iv') \<Rightarrow> (r, st\<lparr>inventory := iv'\<rparr>))"

text \<open>
  \<^verbatim>\<open>parse\<close> (lines 132 to 231). \<open>cache_arg\<close> is the parameter \<^verbatim>\<open>cache\<close>. A cached
  payload is a dictionary of two keys, hence true for \<^verbatim>\<open>if not source\<close>; only a missing
  entry (\<^verbatim>\<open>None\<close>) leads to the requests.
\<close>

definition parse :: "config \<Rightarrow> env \<Rightarrow> bool \<Rightarrow> state \<Rightarrow> error option \<times> state" where
  "parse cfg e cache_arg st =
    (let base_url = rstrip_slash (url cfg);
         controller_host = controller_host_from_url e base_url;
         use_cache = (cache_arg \<and> cache_option cfg);
         cached = (if use_cache then cache st (cache_key cfg) else None)
     in case cached of
          Some src \<Rightarrow> build cfg e controller_host src st
        | None \<Rightarrow>
           (case http_get_json (open_projects e) (base_url @ ''/v2/projects'') (validate_certs cfg) st of
              (Inl err, st1) \<Rightarrow> (Some err, st1)
            | (Inr projects, st1) \<Rightarrow>
               (case find_project_id projects (project_id cfg) (project_name cfg) of
                  Inl err \<Rightarrow> (Some err, st1)
                | Inr pid \<Rightarrow>
                   (case http_get_json (open_nodes e)
                           (base_url @ ''/v2/projects/'' @ fmt pid @ ''/nodes'') (validate_certs cfg) st1 of
                      (Inl err, st2) \<Rightarrow> (Some err, st2)
                    | (Inr nodes, st2) \<Rightarrow>
                       (let src = \<lparr>src_project_id = pid, src_nodes = nodes\<rparr>;
                            st3 = (if use_cache
                                   then st2\<lparr>cache := (cache st2)(cache_key cfg \<mapsto> src)\<rparr>
                                   else st2)
                        in build cfg e controller_host src st3)))))"

text \<open>
  The identifiers the loop gives the nodes, one entry per node (\<open>None\<close> for a skipped
  node), and the set \<^verbatim>\<open>seen\<close> when the loop ends.
\<close>

fun resolve_hosts :: "string \<Rightarrow> node list \<Rightarrow> string set \<Rightarrow> string option list" where
  "resolve_hosts naming [] seen = []"
| "resolve_hosts naming (n # ns) seen =
    (case resolve_host naming n seen of
       None \<Rightarrow> None # resolve_hosts naming ns seen
     | Some host \<Rightarrow> Some host # resolve_hosts naming ns (insert host seen))"

fun seen_after :: "string \<Rightarrow> node list \<Rightarrow> string set \<Rightarrow> string set" where
  "seen_after naming [] seen = seen"
| "seen_after naming (n # ns) seen =
    (case resolve_host naming n seen of
       None \<Rightarrow> seen_after naming ns seen
     | Some host \<Rightarrow> seen_after naming ns (insert host seen))"

text \<open>The identifiers of the hosts emitted, in node order.\<close>

definition emitted_hosts :: "string \<Rightarrow> node list \<Rightarrow> string set \<Rightarrow> string list" where
  "emitted_hosts naming ns seen = List.map_filter id (resolve_hosts naming ns seen)"

text \<open>
  Whether some node of the loop is given a suffixed identifier that is itself already in
  \<^verbatim>\<open>seen\<close>: the candidate is in the set (line 192) and so is the candidate with its suffix
  (line 194), which line 195 then adds once more.
\<close>

fun suffix_collision :: "string \<Rightarrow> node list \<Rightarrow> string set \<Rightarrow> bool" where
  "suffix_collision naming [] seen = False"
| "suffix_collision naming (n # ns) seen =
    (case host_candidate naming n of
       None \<Rightarrow> suffix_collision naming ns seen
     | Some c \<Rightarrow>
         (c \<in> seen \<and> c @ ''_'' @ dedup_suffix n \<in> seen)
         \<or> suffix_collision naming ns (insert (dedup n c seen) seen))"

text \<open>
  The parent group \<open>P\<close> exists, and what the inventory holds beyond an earlier inventory
  \<open>iv0\<close> is in it: every host and every member of every group is one that \<open>iv0\<close> had
  already, or a member of \<open>P\<close>.
\<close>

definition parent_covers :: "inventory \<Rightarrow> string \<Rightarrow> inventory \<Rightarrow> bool" where
  "parent_covers iv0 P iv \<longleftrightarrow>
     groups iv P \<noteq> None
     \<and> dom (hosts iv) \<subseteq> dom (hosts iv0) \<union> members iv P
     \<and> (\<forall>g. members iv g \<subseteq> members iv0 g \<union> members iv P)"

text \<open>The names of the type groups the nodes of a list call for (lines 223 and 224).\<close>

definition type_groups :: "config \<Rightarrow> node list \<Rightarrow> string set" where
  "type_groups cfg ns =
    (if group_by_node_type cfg
     then {''gns3_type_'' @ fmt (node_type n) | n. n \<in> set ns \<and> truthy (node_type n)}
     else {})"

subsection \<open>The calls on the inventory store, in order\<close>

text \<open>
  One call of \<^verbatim>\<open>parse\<close> on the store: \<^verbatim>\<open>add_group(g)\<close>, \<^verbatim>\<open>add_host(h, group=g)\<close>,
  \<^verbatim>\<open>set_variable(h, k, v)\<close>, \<^verbatim>\<open>add_child(g, h)\<close>, or the constructed-variables calls for a
  host (lines 228 to 231).
\<close>

datatype store_call =
    AddGroup string
  | AddHost string string
  | SetVariable string string pyval
  | AddChild string string
  | Constructed string

fun is_add_host :: "store_call \<Rightarrow> bool" where
  "is_add_host (AddHost h g) = True"
| "is_add_host (AddGroup g) = False"
| "is_add_host (SetVariable h k v) = False"
| "is_add_host (AddChild g h) = False"
| "is_add_host (Constructed h) = False"

text \<open>What a call does to the store; only the constructed-variables calls can fail.\<close>

fun run_call :: "env \<Rightarrow> store_call \<Rightarrow> inventory \<Rightarrow> error option \<times> inventory" where
  "run_call e (AddGroup g) iv = (None, add_group g iv)"
| "run_call e (AddHost h g) iv = (None, add_host h g iv)"
| "run_call e (SetVariable h k v) iv = (None, set_variable h k v iv)"
| "run_call e (AddChild g h) iv = (None, add_child g h iv)"
| "run_call e (Constructed h) iv = constructed e h iv"

text \<open>Calls one after the other; the first error ends them.\<close>

fun run_calls :: "env \<Rightarrow> store_call list \<Rightarrow> inventory \<Rightarrow> error option \<times> inventory" where
  "run_calls e [] iv = (None, iv)"
| "run_calls e (c # cs) iv =
    (case run_call e c iv of
       (Some err, iv') \<Rightarrow> (Some err, iv')
     | (None, iv') \<Rightarrow> run_calls e cs iv')"

text \<open>Lines 197 to 226 for one node whose final identifier is \<open>host\<close>, as calls.\<close>

definition emit_calls ::
  "config \<Rightarrow> string \<Rightarrow> string option \<Rightarrow> node \<Rightarrow> string \<Rightarrow> store_call list" where
  "emit_calls cfg controller_host pid n host =
    AddHost host (parent_group cfg)
    # map (\<lambda>(k, v). SetVariable host k v) (host_vars cfg controller_host pid n)
    @ (if group_by_node_type cfg \<and> truthy (node_type n)
       then [AddGroup (''gns3_type_'' @ fmt (node_type n)),
             AddChild (''gns3_type_'' @ fmt (node_type n)) host]
       else [])"

text \<open>The loop of lines 181 to 231, as calls.\<close>

fun loop_calls ::
  "config \<Rightarrow> string \<Rightarrow> string option \<Rightarrow> node list \<Rightarrow> string set \<Rightarrow> store_call list" where
  "loop_calls cfg controller_host pid [] seen = []"
| "loop_calls cfg controller_host pid (n # ns) seen =
    (case resolve_host (host_naming cfg) n seen of
       None \<Rightarrow> loop_calls cfg controller_host pid ns seen
     | Some host \<Rightarrow>
         emit_calls cfg controller_host pid n host @ Constructed host
         # loop_calls cfg controller_host pid ns (insert host seen))"

text \<open>Lines 172 to 231, as calls: line 176 first, then the loop.\<close>

definition build_calls :: "config \<Rightarrow> string \<Rightarrow> source \<Rightarrow> store_call list" where
  "build_calls cfg controller_host src =
    AddGroup (parent_group cfg)
    # loop_calls cfg controller_host (src_project_id src) (src_nodes src) {}"

section \<open>Example values\<close>

text \<open>
  The values of the examples: the configuration and the single project and node of the
  specification's end-to-end example, a controller that answers with them, and project
  lists for the resolver.
\<close>

definition example_config :: config where
  "example_config =
    \<lparr>url = ''http://gns3.example.com:3080/'', project_id = None, project_name = Some ''Lab'',
     validate_certs = True, parent_group = ''gns3'', host_naming = ''name'', port_offset = 1,
     group_by_node_type = True, cache_option = True, cache_key = ''gns3.yml''\<rparr>"

definition example_node :: "string option \<Rightarrow> string option \<Rightarrow> node" where
  "example_node nm i =
    \<lparr>node_id = i, name = nm, node_type = Some ''router'', status = Some ''started'',
     console_type = Some ''telnet'', console_host = Some ''0.0.0.0'', console = PInt 5000\<rparr>"

definition example_env :: env where
  "example_env =
    \<lparr>urlparse_hostname = (\<lambda>u. Some ''gns3.example.com''),
     open_projects = (\<lambda>u vc. Inr [\<lparr>p_project_id = Some ''p1'', p_name = Some ''Lab''\<rparr>]),
     open_nodes = (\<lambda>u vc. Inr [example_node (Some ''R1'') (Some ''n1'')]),
     constructed = no_constructed\<rparr>"

definition empty_state :: state where
  "empty_state = \<lparr>inventory = empty_inventory, cache = Map.empty, requests = []\<rparr>"

definition example_projects :: "project list" where
  "example_projects =
    [\<lparr>p_project_id = Some ''p1'', p_name = Some ''Lab''\<rparr>,
     \<lparr>p_project_id = Some ''p2'', p_name = Some ''Twin''\<rparr>,
     \<lparr>p_project_id = Some ''p3'', p_name = Some ''Twin''\<rparr>]"

definition blank_projects :: "project list" where
  "blank_projects =
    [\<lparr>p_project_id = Some [], p_name = Some ''Lab''\<rparr>,
     \<lparr>p_project_id = Some ''p2'', p_name = Some ''Other''\<rparr>]"

text \<open>
  The composed group of the plugin's own example configuration,
  \<^verbatim>\<open>groups: running: gns3_status == "started"\<close>, as constructed-variables calls: a host
  whose status is started is put into the group running.
\<close>

definition running_group :: "string \<Rightarrow> inventory \<Rightarrow> error option \<times> inventory" where
  "running_group host iv =
    (None,
     if vars_of iv host ''gns3_status'' = Some (PStr ''started'')
     then add_child ''running'' host (add_group ''running'' iv)
     else iv)"

text \<open>An inventory that holds a host and a group of its own before the run.\<close>

definition lab_inventory :: inventory where
  "lab_inventory = \<lparr>groups = [''lab'' \<mapsto> {''pc1''}], hosts = [''pc1'' \<mapsto> Map.empty]\<rparr>"

section \<open>Theorems\<close>

subsection \<open>Project resolution\<close>

lemma find_by_id:
  assumes "truthy pid"
  shows "find_project_id ps pid nm =
    (if \<exists>p \<in> set ps. p_project_id p = pid then Inr pid
     else Inl (NotFound (''GNS3 inventory: project_id not found: '' @ fmt pid)))"
  using assms by (simp add: find_project_id_def list_ex_iff)

lemma find_by_name:
  assumes "\<not> truthy pid" and "truthy nm"
  shows "find_project_id ps pid nm =
    (case filter (\<lambda>p. p_name p = nm) ps of
       [] \<Rightarrow> Inl (NotFound (''GNS3 inventory: project_name not found: '' @ fmt nm))
     | [p] \<Rightarrow> Inr (p_project_id p)
     | p # q # r \<Rightarrow>
         Inl (AmbiguousSelector (''GNS3 inventory: multiple projects match name '' @ [CHR 0x27]
                @ fmt nm @ [CHR 0x27] @ ''. Use project_id instead.'')))"
  using assms by (simp add: find_project_id_def Let_def split: list.splits)

lemma find_neither:
  assumes "\<not> truthy pid" and "\<not> truthy nm"
  shows "find_project_id ps pid nm =
    Inl (MissingSelector ''GNS3 inventory: you must set either project_id or project_name.'')"
  using assms by (simp add: find_project_id_def)

text \<open>
  Claim C1. A selector is given when it is a non-empty string (\<open>truthy\<close>). With
  \<open>project_id\<close> given, resolution returns that id when some project of the list has it
  and fails with \<open>NotFound\<close> otherwise, so it returns the id exactly when a project has
  it. With no \<open>project_id\<close> and \<open>project_name\<close> given: no project of that name fails
  with \<open>NotFound\<close>, exactly one returns that project's id, two or more fail with
  \<open>AmbiguousSelector\<close>. With neither selector, resolution fails with \<open>MissingSelector\<close>.
\<close>

theorem find_project_id_resolution:
  "(truthy pid \<longrightarrow>
      (if \<exists>p \<in> set ps. p_project_id p = pid then find_project_id ps pid nm = Inr pid
       else \<exists>msg. find_project_id ps pid nm = Inl (NotFound msg)))
   \<and> (\<not> truthy pid \<and> truthy nm \<longrightarrow>
        (case filter (\<lambda>p. p_name p = nm) ps of
           [] \<Rightarrow> \<exists>msg. find_project_id ps pid nm = Inl (NotFound msg)
         | [p] \<Rightarrow> find_project_id ps pid nm = Inr (p_project_id p)
         | p # q # r \<Rightarrow> \<exists>msg. find_project_id ps pid nm = Inl (AmbiguousSelector msg)))
   \<and> (\<not> truthy pid \<and> \<not> truthy nm \<longrightarrow>
        (\<exists>msg. find_project_id ps pid nm = Inl (MissingSelector msg)))"
proof (intro conjI impI)
  assume "truthy pid"
  then show "if \<exists>p \<in> set ps. p_project_id p = pid then find_project_id ps pid nm = Inr pid
       else \<exists>msg. find_project_id ps pid nm = Inl (NotFound msg)"
    by (simp add: find_by_id)
next
  assume "\<not> truthy pid \<and> truthy nm"
  then have "find_project_id ps pid nm =
    (case filter (\<lambda>p. p_name p = nm) ps of
       [] \<Rightarrow> Inl (NotFound (''GNS3 inventory: project_name not found: '' @ fmt nm))
     | [p] \<Rightarrow> Inr (p_project_id p)
     | p # q # r \<Rightarrow>
         Inl (AmbiguousSelector (''GNS3 inventory: multiple projects match name '' @ [CHR 0x27]
                @ fmt nm @ [CHR 0x27] @ ''. Use project_id instead.'')))"
    by (simp add: find_by_name)
  then show "case filter (\<lambda>p. p_name p = nm) ps of
           [] \<Rightarrow> \<exists>msg. find_project_id ps pid nm = Inl (NotFound msg)
         | [p] \<Rightarrow> find_project_id ps pid nm = Inr (p_project_id p)
         | p # q # r \<Rightarrow> \<exists>msg. find_project_id ps pid nm = Inl (AmbiguousSelector msg)"
    by (simp split: list.splits)
next
  assume "\<not> truthy pid \<and> \<not> truthy nm"
  then show "\<exists>msg. find_project_id ps pid nm = Inl (MissingSelector msg)"
    by (simp add: find_neither)
qed

text \<open>
  The three projects of the witness: one named Lab, two named Twin. By id: p1 is found,
  p9 is not. By name: Lab gives p1, Twin is ambiguous, Solo is not found. No selector:
  the missing-selector error.
\<close>

theorem find_project_id_resolution_witness:
  "find_project_id example_projects (Some ''p1'') (Some ''Twin'') = Inr (Some ''p1'')
   \<and> (\<exists>msg. find_project_id example_projects (Some ''p9'') (Some ''Lab'') = Inl (NotFound msg))
   \<and> find_project_id example_projects None (Some ''Lab'') = Inr (Some ''p1'')
   \<and> (\<exists>msg. find_project_id example_projects None (Some ''Twin'') = Inl (AmbiguousSelector msg))
   \<and> (\<exists>msg. find_project_id example_projects None (Some ''Solo'') = Inl (NotFound msg))
   \<and> (\<exists>msg. find_project_id example_projects None None = Inl (MissingSelector msg))"
  using find_project_id_resolution [where pid = "Some ''p1''" and ps = example_projects and nm = "Some ''Twin''"]
    find_project_id_resolution [where pid = "Some ''p9''" and ps = example_projects and nm = "Some ''Lab''"]
    find_project_id_resolution [where pid = None and ps = example_projects and nm = "Some ''Lab''"]
    find_project_id_resolution [where pid = None and ps = example_projects and nm = "Some ''Twin''"]
    find_project_id_resolution [where pid = None and ps = example_projects and nm = "Some ''Solo''"]
    find_project_id_resolution [where pid = None and ps = example_projects and nm = "None"]
  by (simp add: truthy_def example_projects_def)

text \<open>
  Claim C10. An empty \<open>project_id\<close> does not take precedence over \<open>project_name\<close>:
  resolution is the one by \<open>project_name\<close> alone (the result with no \<open>project_id\<close> at
  all, whatever the project list holds), and when \<open>project_name\<close> is absent or empty
  too, the failure is the missing-selector error, not \<open>NotFound\<close>.
\<close>

theorem empty_project_id_falls_through:
  "find_project_id ps (Some []) nm = find_project_id ps None nm
   \<and> (truthy nm \<longrightarrow>
        find_project_id ps (Some []) nm =
          (case filter (\<lambda>p. p_name p = nm) ps of
             [] \<Rightarrow> Inl (NotFound (''GNS3 inventory: project_name not found: '' @ fmt nm))
           | [p] \<Rightarrow> Inr (p_project_id p)
           | p # q # r \<Rightarrow>
               Inl (AmbiguousSelector (''GNS3 inventory: multiple projects match name ''
                      @ [CHR 0x27] @ fmt nm @ [CHR 0x27] @ ''. Use project_id instead.''))))
   \<and> (nm = None \<or> nm = Some [] \<longrightarrow>
        find_project_id ps (Some []) nm =
          Inl (MissingSelector ''GNS3 inventory: you must set either project_id or project_name.''))"
proof (intro conjI impI)
  show "find_project_id ps (Some []) nm = find_project_id ps None nm"
    by (simp add: find_project_id_def truthy_def)
next
  assume "truthy nm"
  moreover have "\<not> truthy (Some [])"
    by (simp add: truthy_def)
  ultimately show "find_project_id ps (Some []) nm =
          (case filter (\<lambda>p. p_name p = nm) ps of
             [] \<Rightarrow> Inl (NotFound (''GNS3 inventory: project_name not found: '' @ fmt nm))
           | [p] \<Rightarrow> Inr (p_project_id p)
           | p # q # r \<Rightarrow>
               Inl (AmbiguousSelector (''GNS3 inventory: multiple projects match name ''
                      @ [CHR 0x27] @ fmt nm @ [CHR 0x27] @ ''. Use project_id instead.'')))"
    by (simp add: find_by_name)
next
  assume "nm = None \<or> nm = Some []"
  then have "\<not> truthy nm"
    by (auto simp: truthy_def)
  moreover have "\<not> truthy (Some [])"
    by (simp add: truthy_def)
  ultimately show "find_project_id ps (Some []) nm =
      Inl (MissingSelector ''GNS3 inventory: you must set either project_id or project_name.'')"
    by (simp add: find_neither)
qed

text \<open>
  The witness has a project whose own id is the empty string: the empty selector still
  does not select it.
\<close>

theorem empty_project_id_falls_through_witness:
  "find_project_id blank_projects (Some []) (Some ''Other'') = Inr (Some ''p2'')
   \<and> find_project_id blank_projects (Some []) None =
       Inl (MissingSelector ''GNS3 inventory: you must set either project_id or project_name.'')
   \<and> find_project_id blank_projects (Some []) (Some []) =
       Inl (MissingSelector ''GNS3 inventory: you must set either project_id or project_name.'')"
  using
    empty_project_id_falls_through
      [where ps = "blank_projects" and nm = "Some ''Other''", THEN conjunct2, THEN conjunct1]
    empty_project_id_falls_through
      [where ps = "blank_projects" and nm = "None", THEN conjunct2, THEN conjunct2]
    empty_project_id_falls_through
      [where ps = "blank_projects" and nm = "Some []", THEN conjunct2, THEN conjunct2]
  by (simp add: truthy_def blank_projects_def)

subsection \<open>Naming and skipping\<close>

lemma host_candidate_cases:
  "host_candidate naming n =
    (if naming = ''name''
     then (if truthy (name n) then name n
           else if truthy (node_id n) then node_id n else None)
     else (if truthy (node_id n) then node_id n
           else if truthy (name n) then name n else None))"
  by (simp add: host_candidate_def py_or_def Let_def)

lemma host_candidate_nonempty:
  "host_candidate naming n = Some c \<Longrightarrow> c \<noteq> []"
  by (auto simp: host_candidate_cases truthy_def split: if_splits)

text \<open>
  Claim C7. The candidate identifier of a node is the field the naming policy selects
  (\<open>name\<close> under the policy name, \<open>node_id\<close> otherwise), or the other field when the
  selected one is empty (absent or the empty string). When both are empty the node is
  skipped: the loop goes on with the used-set and the inventory as they were, so the
  node adds no host and no variable, and no error is raised for it.
\<close>

theorem candidate_fallback_and_skip:
  "host_candidate naming n =
     (if naming = ''name''
      then (if truthy (name n) then name n
            else if truthy (node_id n) then node_id n else None)
      else (if truthy (node_id n) then node_id n
            else if truthy (name n) then name n else None))
   \<and> (\<not> truthy (name n) \<and> \<not> truthy (node_id n) \<longrightarrow>
        host_candidate naming n = None
        \<and> process_nodes cfg e ch pid (n # ns) seen iv = process_nodes cfg e ch pid ns seen iv
        \<and> process_nodes cfg e ch pid [n] seen iv = (None, seen, iv))"
proof (intro conjI impI)
  show "host_candidate naming n =
     (if naming = ''name''
      then (if truthy (name n) then name n
            else if truthy (node_id n) then node_id n else None)
      else (if truthy (node_id n) then node_id n
            else if truthy (name n) then name n else None))"
    by (rule host_candidate_cases)
next
  assume a: "\<not> truthy (name n) \<and> \<not> truthy (node_id n)"
  then show "host_candidate naming n = None"
    by (simp add: host_candidate_cases)
  from a have "resolve_host (host_naming cfg) n seen = None"
    by (simp add: resolve_host_def host_candidate_cases)
  then show "process_nodes cfg e ch pid (n # ns) seen iv = process_nodes cfg e ch pid ns seen iv"
    and "process_nodes cfg e ch pid [n] seen iv = (None, seen, iv)"
    by simp_all
qed

theorem candidate_fallback_and_skip_witness:
  "host_candidate ''name'' (example_node (Some []) (Some ''n1'')) = Some ''n1''
   \<and> host_candidate ''node_id'' (example_node (Some ''R1'') None) = Some ''R1''
   \<and> host_candidate ''name'' (example_node (Some ''R1'') (Some ''n1'')) = Some ''R1''
   \<and> host_candidate ''node_id'' (example_node (Some ''R1'') (Some ''n1'')) = Some ''n1''
   \<and> host_candidate ''name'' (example_node None (Some [])) = None
   \<and> process_nodes example_config example_env ''gns3.example.com'' (Some ''p1'')
        [example_node None (Some [])] {} empty_inventory = (None, {}, empty_inventory)"
  using
    candidate_fallback_and_skip [where naming = "''name''" and n = "example_node (Some []) (Some ''n1'')",
      THEN conjunct1]
    candidate_fallback_and_skip [where naming = "''node_id''" and n = "example_node (Some ''R1'') None",
      THEN conjunct1]
    candidate_fallback_and_skip [where naming = "''name''" and n = "example_node (Some ''R1'') (Some ''n1'')",
      THEN conjunct1]
    candidate_fallback_and_skip [where naming = "''node_id''" and n = "example_node (Some ''R1'') (Some ''n1'')",
      THEN conjunct1]
    candidate_fallback_and_skip [where naming = "''name''" and n = "example_node None (Some [])"
      and cfg = example_config and e = example_env and ch = "''gns3.example.com''"
      and pid = "Some ''p1''" and seen = "{}" and iv = empty_inventory and ns = "[]"]
  by (simp add: truthy_def example_node_def)

subsection \<open>Host variables\<close>

lemma map_of_rev_distinct:
  "distinct (map fst xs) \<Longrightarrow> map_of (rev xs) = map_of xs"
proof (induction xs)
  case Nil
  show ?case by simp
next
  case (Cons kv xs)
  obtain k v where kv: "kv = (k, v)" by (cases kv)
  from Cons.prems have k: "map_of xs k = None" and d: "distinct (map fst xs)"
    by (auto simp: kv map_of_eq_None_iff)
  show ?case
  proof (rule ext)
    fix x
    show "map_of (rev (kv # xs)) x = map_of (kv # xs) x"
      using k by (simp add: kv Cons.IH [OF d] map_add_def split: option.splits)
  qed
qed

lemma vars_of_set_variable:
  "vars_of (set_variable h k v iv) h' = (if h' = h then (vars_of iv h)(k \<mapsto> v) else vars_of iv h')"
  by (simp add: set_variable_def vars_of_def)

lemma vars_of_set_variables:
  "vars_of (set_variables h kvs iv) h = vars_of iv h ++ map_of (rev kvs)"
proof (induction kvs arbitrary: iv)
  case Nil
  show ?case by simp
next
  case (Cons kv kvs)
  obtain k v where kv: "kv = (k, v)" by (cases kv)
  show ?case
    by (rule ext) (simp add: kv Cons.IH vars_of_set_variable map_add_def split: option.splits)
qed

lemma vars_of_add_child [simp]: "vars_of (add_child g h iv) h' = vars_of iv h'"
  by (simp add: add_child_def vars_of_def)

lemma vars_of_add_group [simp]: "vars_of (add_group g iv) h' = vars_of iv h'"
  by (simp add: add_group_def vars_of_def split: option.splits)

lemma vars_of_add_host [simp]: "vars_of (add_host h g iv) h' = vars_of iv h'"
  by (auto simp: add_host_def vars_of_def add_child_def split: option.splits)

lemma vars_of_group_by_type [simp]: "vars_of (group_by_type cfg n host iv) h' = vars_of iv h'"
  by (simp add: group_by_type_def Let_def)

lemma host_vars_keys:
  "map fst (host_vars cfg ch pid n) =
     [''gns3_project_id'', ''gns3_node_id'', ''gns3_node_name'', ''gns3_node_type'', ''gns3_status'',
      ''gns3_console_type'', ''gns3_console_host'', ''gns3_console_port'', ''ansible_host'']
     @ (if isinstance_int (console n) then [''ansible_port''] else [])"
  by (simp add: host_vars_def Let_def isinstance_int_def split: option.splits)

lemma host_vars_distinct: "distinct (map fst (host_vars cfg ch pid n))"
  by (simp add: host_vars_keys)

lemma vars_of_emit_host:
  "vars_of (emit_host cfg ch pid n host iv) host = vars_of iv host ++ map_of (host_vars cfg ch pid n)"
  by (simp add: emit_host_def vars_of_set_variables map_of_rev_distinct [OF host_vars_distinct])

lemma host_vars_port:
  "map_of (host_vars cfg ch pid n) ''ansible_port'' =
     map_option (\<lambda>i. PInt (i + port_offset cfg)) (int_value (console n))"
  by (simp add: host_vars_def Let_def split: option.splits)

lemma host_vars_host:
  "map_of (host_vars cfg ch pid n) ''ansible_host'' = Some (PStr (connection_host ch n))"
  by (simp add: host_vars_def Let_def split: option.splits)

lemma connection_host_cases:
  "connection_host ch n =
    (case console_host n of
       None \<Rightarrow> ch
     | Some h \<Rightarrow> if h \<noteq> [] \<and> h \<noteq> ''0.0.0.0'' \<and> h \<noteq> ''::'' then h else ch)"
  by (simp add: connection_host_def Let_def split: option.splits)

text \<open>
  Claim C4. Among the variables set for a mapped host, \<open>ansible_port\<close> is present exactly
  when the raw \<open>console\<close> field is an integer (\<^verbatim>\<open>isinstance(console, int)\<close>, which in
  Python also holds of the booleans), and its value is then that integer plus the
  configured offset. Whatever \<open>console\<close> is, \<open>ansible_host\<close> and the eight
  \<open>gns3_\<close> variables are set. After the node is emitted, the host's variables in the
  inventory are its earlier ones overwritten by these; on a host with no earlier
  \<open>ansible_port\<close>, the variable is there exactly when \<open>console\<close> is an integer.
\<close>

theorem ansible_port_iff_console_integer:
  "(''ansible_port'' \<in> set (map fst (host_vars cfg ch pid n)) \<longleftrightarrow> isinstance_int (console n))
   \<and> map_of (host_vars cfg ch pid n) ''ansible_port'' =
       map_option (\<lambda>i. PInt (i + port_offset cfg)) (int_value (console n))
   \<and> (console n = PInt i \<longrightarrow>
        map_of (host_vars cfg ch pid n) ''ansible_port'' = Some (PInt (i + port_offset cfg)))
   \<and> (\<not> isinstance_int (console n) \<longrightarrow>
        map_of (host_vars cfg ch pid n) ''ansible_port'' = None)
   \<and> map_of (host_vars cfg ch pid n) ''ansible_host'' = Some (PStr (connection_host ch n))
   \<and> set [''gns3_project_id'', ''gns3_node_id'', ''gns3_node_name'', ''gns3_node_type'',
           ''gns3_status'', ''gns3_console_type'', ''gns3_console_host'', ''gns3_console_port'',
           ''ansible_host''] \<subseteq> set (map fst (host_vars cfg ch pid n))
   \<and> vars_of (emit_host cfg ch pid n host iv) host =
       vars_of iv host ++ map_of (host_vars cfg ch pid n)
   \<and> (vars_of iv host ''ansible_port'' = None \<longrightarrow>
        (vars_of (emit_host cfg ch pid n host iv) host ''ansible_port'' \<noteq> None
           \<longleftrightarrow> isinstance_int (console n)))"
proof (intro conjI impI)
  show "(''ansible_port'' \<in> set (map fst (host_vars cfg ch pid n))) = isinstance_int (console n)"
    by (simp add: host_vars_keys)
  show p: "map_of (host_vars cfg ch pid n) ''ansible_port'' =
       map_option (\<lambda>i. PInt (i + port_offset cfg)) (int_value (console n))"
    by (rule host_vars_port)
  show "map_of (host_vars cfg ch pid n) ''ansible_port'' = Some (PInt (i + port_offset cfg))"
    if "console n = PInt i"
    using that by (simp add: p)
  show "map_of (host_vars cfg ch pid n) ''ansible_port'' = None"
    if "\<not> isinstance_int (console n)"
    using that by (simp add: p isinstance_int_def)
  show "map_of (host_vars cfg ch pid n) ''ansible_host'' = Some (PStr (connection_host ch n))"
    by (rule host_vars_host)
  show "set [''gns3_project_id'', ''gns3_node_id'', ''gns3_node_name'', ''gns3_node_type'',
           ''gns3_status'', ''gns3_console_type'', ''gns3_console_host'', ''gns3_console_port'',
           ''ansible_host''] \<subseteq> set (map fst (host_vars cfg ch pid n))"
    unfolding host_vars_keys set_append by (rule Un_upper1)
  show e: "vars_of (emit_host cfg ch pid n host iv) host =
       vars_of iv host ++ map_of (host_vars cfg ch pid n)"
    by (rule vars_of_emit_host)
  show "(vars_of (emit_host cfg ch pid n host iv) host ''ansible_port'' \<noteq> None)
      = isinstance_int (console n)"
    if "vars_of iv host ''ansible_port'' = None"
    using that by (simp add: e map_add_def p isinstance_int_def split: option.splits)
qed

text \<open>
  Console 5000 with offset 1 gives port 5001; with \<^verbatim>\<open>null\<close> or a string as console the
  port is absent and \<open>ansible_host\<close> is still set.
\<close>

theorem ansible_port_iff_console_integer_witness:
  "map_of (host_vars example_config ''gns3.example.com'' (Some ''p1'')
       (example_node (Some ''R1'') (Some ''n1''))) ''ansible_port'' = Some (PInt 5001)
   \<and> map_of (host_vars example_config ''gns3.example.com'' (Some ''p1'')
       ((example_node (Some ''R1'') (Some ''n1'')) \<lparr>console := PNone\<rparr>)) ''ansible_port'' = None
   \<and> map_of (host_vars example_config ''gns3.example.com'' (Some ''p1'')
       ((example_node (Some ''R1'') (Some ''n1'')) \<lparr>console := PStr ''5000''\<rparr>)) ''ansible_port'' = None
   \<and> map_of (host_vars example_config ''gns3.example.com'' (Some ''p1'')
       ((example_node (Some ''R1'') (Some ''n1'')) \<lparr>console := PNone\<rparr>)) ''ansible_host''
       = Some (PStr ''gns3.example.com'')
   \<and> vars_of (emit_host example_config ''gns3.example.com'' (Some ''p1'')
         (example_node (Some ''R1'') (Some ''n1'')) ''R1'' empty_inventory) ''R1'' ''ansible_port''
       \<noteq> None"
  using
    ansible_port_iff_console_integer [where cfg = example_config and ch = "''gns3.example.com''"
      and pid = "Some ''p1''" and n = "example_node (Some ''R1'') (Some ''n1'')" and i = 5000
      and host = "''R1''" and iv = empty_inventory]
    ansible_port_iff_console_integer [where cfg = example_config and ch = "''gns3.example.com''"
      and pid = "Some ''p1''" and n = "(example_node (Some ''R1'') (Some ''n1'')) \<lparr>console := PNone\<rparr>"]
    ansible_port_iff_console_integer [where cfg = example_config and ch = "''gns3.example.com''"
      and pid = "Some ''p1''" and n = "(example_node (Some ''R1'') (Some ''n1'')) \<lparr>console := PStr ''5000''\<rparr>"]
  by (simp add: example_node_def example_config_def isinstance_int_def connection_host_cases
      vars_of_def empty_inventory_def)

text \<open>
  Claim C5, as stated, fails for a node whose \<open>console_host\<close> is present but empty:
  the empty string is no wildcard, and still \<open>ansible_host\<close> is the controller host,
  not the empty string (line 210: \<^verbatim>\<open>n.get("console_host") or controller_host\<close>).
\<close>

theorem empty_console_host_counterexample:
  "console_host ((example_node (Some ''R1'') (Some ''n1'')) \<lparr>console_host := Some []\<rparr>) = Some []
   \<and> [] \<noteq> ''0.0.0.0'' \<and> [] \<noteq> ''::''
   \<and> map_of (host_vars example_config ''gns3.example.com'' (Some ''p1'')
         ((example_node (Some ''R1'') (Some ''n1'')) \<lparr>console_host := Some []\<rparr>)) ''ansible_host''
       = Some (PStr ''gns3.example.com'')
   \<and> map_of (host_vars example_config ''gns3.example.com'' (Some ''p1'')
         ((example_node (Some ''R1'') (Some ''n1'')) \<lparr>console_host := Some []\<rparr>)) ''ansible_host''
       \<noteq> Some (PStr [])"
  by (simp add: host_vars_host connection_host_cases example_node_def)

text \<open>
  Claim C5, amended. For every mapped host, \<open>ansible_host\<close> is the node's raw
  \<open>console_host\<close> when that field is present, not empty and not one of the wildcards
  \<^verbatim>\<open>0.0.0.0\<close> and \<^verbatim>\<open>::\<close>, and the controller host otherwise. The controller host is
  computed once from the base URL (the configured URL without trailing slashes): the
  hostname parsed from it, or the base URL itself when no hostname can be parsed. Any
  non-empty, non-wildcard \<open>console_host\<close> passes through unchanged.
\<close>

theorem ansible_host_value:
  "map_of (host_vars cfg (controller_host_from_url e (rstrip_slash (url cfg))) pid n) ''ansible_host'' =
     Some (PStr (case console_host n of
                   None \<Rightarrow> controller_host_from_url e (rstrip_slash (url cfg))
                 | Some h \<Rightarrow>
                     if h \<noteq> [] \<and> h \<noteq> ''0.0.0.0'' \<and> h \<noteq> ''::'' then h
                     else controller_host_from_url e (rstrip_slash (url cfg))))
   \<and> (console_host n = Some h \<and> h \<noteq> [] \<and> h \<noteq> ''0.0.0.0'' \<and> h \<noteq> ''::'' \<longrightarrow>
        map_of (host_vars cfg ch pid n) ''ansible_host'' = Some (PStr h))
   \<and> (console_host n = None \<or> console_host n = Some [] \<or> console_host n = Some ''0.0.0.0''
        \<or> console_host n = Some ''::'' \<longrightarrow>
        map_of (host_vars cfg ch pid n) ''ansible_host'' = Some (PStr ch))
   \<and> (urlparse_hostname e (rstrip_slash (url cfg)) = Some hn \<and> hn \<noteq> [] \<longrightarrow>
        controller_host_from_url e (rstrip_slash (url cfg)) = hn)
   \<and> (urlparse_hostname e (rstrip_slash (url cfg)) = None
        \<or> urlparse_hostname e (rstrip_slash (url cfg)) = Some [] \<longrightarrow>
        controller_host_from_url e (rstrip_slash (url cfg)) = rstrip_slash (url cfg))"
proof (intro conjI impI)
  show "map_of (host_vars cfg (controller_host_from_url e (rstrip_slash (url cfg))) pid n) ''ansible_host'' =
     Some (PStr (case console_host n of
                   None \<Rightarrow> controller_host_from_url e (rstrip_slash (url cfg))
                 | Some h \<Rightarrow>
                     if h \<noteq> [] \<and> h \<noteq> ''0.0.0.0'' \<and> h \<noteq> ''::'' then h
                     else controller_host_from_url e (rstrip_slash (url cfg))))"
    by (simp only: host_vars_host connection_host_cases)
  show "map_of (host_vars cfg ch pid n) ''ansible_host'' = Some (PStr h)"
    if "console_host n = Some h \<and> h \<noteq> [] \<and> h \<noteq> ''0.0.0.0'' \<and> h \<noteq> ''::''"
    using that by (simp add: host_vars_host connection_host_cases)
  show "map_of (host_vars cfg ch pid n) ''ansible_host'' = Some (PStr ch)"
    if "console_host n = None \<or> console_host n = Some [] \<or> console_host n = Some ''0.0.0.0''
        \<or> console_host n = Some ''::''"
    using that by (auto simp: host_vars_host connection_host_cases)
  show "controller_host_from_url e (rstrip_slash (url cfg)) = hn"
    if "urlparse_hostname e (rstrip_slash (url cfg)) = Some hn \<and> hn \<noteq> []"
    using that by (simp add: controller_host_from_url_def)
  show "controller_host_from_url e (rstrip_slash (url cfg)) = rstrip_slash (url cfg)"
    if "urlparse_hostname e (rstrip_slash (url cfg)) = None
        \<or> urlparse_hostname e (rstrip_slash (url cfg)) = Some []"
    using that by (auto simp: controller_host_from_url_def)
qed

text \<open>
  A console host 10.0.0.7 passes through; the wildcards, the empty string and a missing
  field give the hostname of \<^verbatim>\<open>http://gns3.example.com:3080/\<close>.
\<close>

theorem ansible_host_value_witness:
  "map_of (host_vars example_config ''gns3.example.com'' (Some ''p1'')
       ((example_node (Some ''R1'') (Some ''n1'')) \<lparr>console_host := Some ''10.0.0.7''\<rparr>)) ''ansible_host''
     = Some (PStr ''10.0.0.7'')
   \<and> map_of (host_vars example_config ''gns3.example.com'' (Some ''p1'')
       (example_node (Some ''R1'') (Some ''n1''))) ''ansible_host'' = Some (PStr ''gns3.example.com'')
   \<and> map_of (host_vars example_config ''gns3.example.com'' (Some ''p1'')
       ((example_node (Some ''R1'') (Some ''n1'')) \<lparr>console_host := Some ''::''\<rparr>)) ''ansible_host''
     = Some (PStr ''gns3.example.com'')
   \<and> map_of (host_vars example_config ''gns3.example.com'' (Some ''p1'')
       ((example_node (Some ''R1'') (Some ''n1'')) \<lparr>console_host := None\<rparr>)) ''ansible_host''
     = Some (PStr ''gns3.example.com'')
   \<and> controller_host_from_url example_env (rstrip_slash (url example_config)) = ''gns3.example.com''
   \<and> controller_host_from_url (example_env \<lparr>urlparse_hostname := (\<lambda>u. None)\<rparr>)
         (rstrip_slash (url example_config)) = ''http://gns3.example.com:3080''"
  using
    ansible_host_value [where cfg = example_config and ch = "''gns3.example.com''"
      and pid = "Some ''p1''" and h = "''10.0.0.7''"
      and n = "(example_node (Some ''R1'') (Some ''n1'')) \<lparr>console_host := Some ''10.0.0.7''\<rparr>",
      THEN conjunct2, THEN conjunct1]
    ansible_host_value [where cfg = example_config and ch = "''gns3.example.com''"
      and pid = "Some ''p1''" and n = "example_node (Some ''R1'') (Some ''n1'')",
      THEN conjunct2, THEN conjunct2, THEN conjunct1]
    ansible_host_value [where cfg = example_config and ch = "''gns3.example.com''"
      and pid = "Some ''p1''"
      and n = "(example_node (Some ''R1'') (Some ''n1'')) \<lparr>console_host := Some ''::''\<rparr>",
      THEN conjunct2, THEN conjunct2, THEN conjunct1]
    ansible_host_value [where cfg = example_config and ch = "''gns3.example.com''"
      and pid = "Some ''p1''"
      and n = "(example_node (Some ''R1'') (Some ''n1'')) \<lparr>console_host := None\<rparr>",
      THEN conjunct2, THEN conjunct2, THEN conjunct1]
    ansible_host_value [where cfg = example_config and e = example_env
      and hn = "''gns3.example.com''",
      THEN conjunct2, THEN conjunct2, THEN conjunct2, THEN conjunct1]
    ansible_host_value [where cfg = example_config
      and e = "example_env \<lparr>urlparse_hostname := (\<lambda>u. None)\<rparr>",
      THEN conjunct2, THEN conjunct2, THEN conjunct2, THEN conjunct2]
  by (simp add: example_node_def example_config_def example_env_def rstrip_slash_def)

subsection \<open>Identifiers and the used-set\<close>

lemma resolve_hosts_append:
  "resolve_hosts naming (xs @ ys) seen =
     resolve_hosts naming xs seen @ resolve_hosts naming ys (seen_after naming xs seen)"
  by (induction xs arbitrary: seen) (auto split: option.splits)

lemma seen_after_append:
  "seen_after naming (xs @ ys) seen = seen_after naming ys (seen_after naming xs seen)"
  by (induction xs arbitrary: seen) (auto split: option.splits)

lemma length_resolve_hosts [simp]: "length (resolve_hosts naming ns seen) = length ns"
  by (induction ns arbitrary: seen) (auto split: option.splits)

lemma seen_after_mono: "seen \<subseteq> seen_after naming ns seen"
proof (induction ns arbitrary: seen)
  case Nil
  show ?case by simp
next
  case (Cons n ns)
  show ?case
  proof (cases "resolve_host naming n seen")
    case None
    then show ?thesis using Cons.IH [of seen] by simp
  next
    case (Some h)
    then show ?thesis using Cons.IH [of "insert h seen"] by auto
  qed
qed

lemma seen_after_emitted:
  "seen_after naming ns seen = seen \<union> set (emitted_hosts naming ns seen)"
  unfolding emitted_hosts_def
  by (induction ns arbitrary: seen) (auto split: option.splits)

lemma resolve_hosts_nth:
  assumes "i < length ns"
  shows "resolve_hosts naming ns seen ! i =
    resolve_host naming (ns ! i) (seen_after naming (take i ns) seen)"
proof -
  have "ns = take i ns @ ns ! i # drop (Suc i) ns"
    using assms by (rule id_take_nth_drop)
  then have "resolve_hosts naming ns seen ! i =
      (resolve_hosts naming (take i ns) seen @
       resolve_hosts naming (ns ! i # drop (Suc i) ns) (seen_after naming (take i ns) seen)) ! i"
    by (metis resolve_hosts_append)
  also have "\<dots> = resolve_hosts naming (ns ! i # drop (Suc i) ns) (seen_after naming (take i ns) seen) ! 0"
    using assms by (simp add: nth_append)
  also have "\<dots> = resolve_host naming (ns ! i) (seen_after naming (take i ns) seen)"
    by (simp split: option.splits)
  finally show ?thesis .
qed

lemma seen_after_take_Suc:
  assumes "i < length ns"
  shows "seen_after naming (take (Suc i) ns) seen =
    (case resolve_host naming (ns ! i) (seen_after naming (take i ns) seen) of
       None \<Rightarrow> seen_after naming (take i ns) seen
     | Some h \<Rightarrow> insert h (seen_after naming (take i ns) seen))"
  using assms by (simp add: take_Suc_conv_app_nth seen_after_append split: option.splits)

lemma seen_after_take_mono:
  assumes "i \<le> j"
  shows "seen_after naming (take i ns) seen \<subseteq> seen_after naming (take j ns) seen"
proof -
  have "take j ns = take i ns @ take (j - i) (drop i ns)"
    using assms by (metis le_add_diff_inverse take_add)
  then show ?thesis
    by (simp add: seen_after_append seen_after_mono)
qed

lemma candidate_recorded:
  assumes "i < length ns" and "host_candidate naming (ns ! i) = Some c"
  shows "c \<in> seen_after naming (take (Suc i) ns) seen"
  using assms by (simp add: seen_after_take_Suc resolve_host_def dedup_def)

lemma final_recorded:
  assumes "i < length ns" and "resolve_hosts naming ns seen ! i = Some h"
  shows "h \<in> seen_after naming ns seen"
proof -
  have "h \<in> seen_after naming (take (Suc i) ns) seen"
    using assms by (simp add: seen_after_take_Suc resolve_hosts_nth)
  moreover have "seen_after naming (take (Suc i) ns) seen \<subseteq> seen_after naming (take (length ns) ns) seen"
    using assms(1) by (intro seen_after_take_mono) simp
  ultimately show ?thesis by auto
qed
lemma dedup_suffixed_neq: "c @ ''_'' @ s \<noteq> c"
  by simp

lemma unsuffixed_fresh:
  assumes "j < length ns" and "host_candidate naming (ns ! j) = Some c"
    and "resolve_hosts naming ns seen ! j = Some c"
  shows "c \<notin> seen_after naming (take j ns) seen"
  using assms by (auto simp: resolve_hosts_nth resolve_host_def dedup_def split: if_splits)

lemma earlier_recorded:
  assumes "i < j" and "j < length ns" and "resolve_hosts naming ns seen ! i = Some h"
  shows "h \<in> seen_after naming (take j ns) seen"
proof -
  have i: "i < length ns" using assms(1,2) by simp
  have "h \<in> seen_after naming (take (Suc i) ns) seen"
    using i assms(3) by (simp add: seen_after_take_Suc resolve_hosts_nth)
  moreover have "seen_after naming (take (Suc i) ns) seen \<subseteq> seen_after naming (take j ns) seen"
    using assms(1) by (intro seen_after_take_mono) simp
  ultimately show ?thesis by auto
qed

lemma collision_iff:
  "(distinct (emitted_hosts naming ns seen) \<and> set (emitted_hosts naming ns seen) \<inter> seen = {})
     \<longleftrightarrow> \<not> suffix_collision naming ns seen"
proof (induction ns arbitrary: seen)
  case Nil
  show ?case by (simp add: emitted_hosts_def)
next
  case (Cons n ns)
  show ?case
  proof (cases "host_candidate naming n")
    case None
    then have "emitted_hosts naming (n # ns) seen = emitted_hosts naming ns seen"
      by (simp add: emitted_hosts_def resolve_host_def)
    with None Cons.IH [of seen] show ?thesis by simp
  next
    case (Some c)
    define h where "h = dedup n c seen"
    have e: "emitted_hosts naming (n # ns) seen = h # emitted_hosts naming ns (insert h seen)"
      by (simp add: emitted_hosts_def resolve_host_def Some h_def)
    have fresh: "h \<notin> seen \<longleftrightarrow> \<not> (c \<in> seen \<and> c @ ''_'' @ dedup_suffix n \<in> seen)"
      by (auto simp: h_def dedup_def)
    have "(distinct (emitted_hosts naming (n # ns) seen)
            \<and> set (emitted_hosts naming (n # ns) seen) \<inter> seen = {})
          \<longleftrightarrow> h \<notin> seen \<and> (distinct (emitted_hosts naming ns (insert h seen))
                \<and> set (emitted_hosts naming ns (insert h seen)) \<inter> insert h seen = {})"
      unfolding e by auto
    also have "\<dots> \<longleftrightarrow> h \<notin> seen \<and> \<not> suffix_collision naming ns (insert h seen)"
      using Cons.IH [of "insert h seen"] by simp
    also have "\<dots> \<longleftrightarrow> \<not> suffix_collision naming (n # ns) seen"
      using fresh by (simp add: Some h_def)
    finally show ?thesis .
  qed
qed

lemma hosts_add_child [simp]: "hosts (add_child g h iv) = hosts iv"
  by (simp add: add_child_def)

lemma hosts_add_group [simp]: "hosts (add_group g iv) = hosts iv"
  by (simp add: add_group_def split: option.splits)

lemma dom_hosts_add_host [simp]: "dom (hosts (add_host h g iv)) = insert h (dom (hosts iv))"
  by (auto simp: add_host_def split: option.splits)

lemma dom_hosts_set_variable [simp]: "dom (hosts (set_variable h k v iv)) = insert h (dom (hosts iv))"
  by (simp add: set_variable_def)

lemma dom_hosts_set_variables:
  "h \<in> dom (hosts iv) \<Longrightarrow> dom (hosts (set_variables h kvs iv)) = dom (hosts iv)"
proof (induction kvs arbitrary: iv)
  case Nil
  show ?case by simp
next
  case (Cons kv kvs)
  obtain k v where kv: "kv = (k, v)" by (cases kv)
  have "dom (hosts (set_variable h k v iv)) = dom (hosts iv)"
    using Cons.prems by (simp add: insert_absorb)
  with Cons.IH [of "set_variable h k v iv"] Cons.prems show ?case
    by (simp add: kv)
qed

lemma hosts_group_by_type [simp]: "hosts (group_by_type cfg n host iv) = hosts iv"
  by (simp add: group_by_type_def Let_def)

lemma dom_hosts_emit_host:
  "dom (hosts (emit_host cfg ch pid n host iv)) = insert host (dom (hosts iv))"
  by (simp add: emit_host_def dom_hosts_set_variables)

lemma process_nodes_no_constructed:
  assumes "constructed e = no_constructed"
  shows "\<exists>iv'. process_nodes cfg e ch pid ns seen iv =
            (None, seen_after (host_naming cfg) ns seen, iv')
          \<and> dom (hosts iv') = dom (hosts iv) \<union> set (emitted_hosts (host_naming cfg) ns seen)"
proof (induction ns arbitrary: seen iv)
  case Nil
  show ?case by (simp add: emitted_hosts_def)
next
  case (Cons n ns)
  show ?case
  proof (cases "resolve_host (host_naming cfg) n seen")
    case None
    then have "emitted_hosts (host_naming cfg) (n # ns) seen = emitted_hosts (host_naming cfg) ns seen"
      by (simp add: emitted_hosts_def)
    with None Cons.IH [of seen iv] show ?thesis by simp
  next
    case (Some h)
    have e: "emitted_hosts (host_naming cfg) (n # ns) seen
               = h # emitted_hosts (host_naming cfg) ns (insert h seen)"
      by (simp add: emitted_hosts_def Some)
    obtain iv' where iv': "process_nodes cfg e ch pid ns (insert h seen) (emit_host cfg ch pid n h iv)
          = (None, seen_after (host_naming cfg) ns (insert h seen), iv')"
        "dom (hosts iv') = dom (hosts (emit_host cfg ch pid n h iv))
           \<union> set (emitted_hosts (host_naming cfg) ns (insert h seen))"
      using Cons.IH [of "insert h seen" "emit_host cfg ch pid n h iv"] by blast
    have "process_nodes cfg e ch pid (n # ns) seen iv
            = (None, seen_after (host_naming cfg) (n # ns) seen, iv')"
      using iv'(1) by (simp add: Some assms no_constructed_def)
    moreover have "dom (hosts iv') = dom (hosts iv) \<union> set (emitted_hosts (host_naming cfg) (n # ns) seen)"
      using iv'(2) by (simp add: e dom_hosts_emit_host)
    ultimately show ?thesis by blast
  qed
qed

text \<open>
  Claim C2, as stated, fails in a run of four nodes named x, x, x_abc and x_abc: the second
  node becomes x_abc, so the third node, the first to resolve to the candidate x_abc,
  finds it in the used-set and does not keep the unsuffixed identifier.
\<close>

theorem first_occurrence_suffixed_counterexample:
  "host_candidate ''name'' (example_node (Some ''x_abc'') (Some ''def'')) = Some ''x_abc''
   \<and> host_candidate ''name'' (example_node (Some ''x_abc'') (Some ''ghi'')) = Some ''x_abc''
   \<and> resolve_hosts ''name''
        [example_node (Some ''x'') (Some ''1''), example_node (Some ''x'') (Some ''abc''),
         example_node (Some ''x_abc'') (Some ''def''), example_node (Some ''x_abc'') (Some ''ghi'')] {}
       = [Some ''x'', Some ''x_abc'', Some ''x_abc_def'', Some ''x_abc_ghi'']
   \<and> resolve_hosts ''name''
        [example_node (Some ''x'') (Some ''1''), example_node (Some ''x'') (Some ''abc''),
         example_node (Some ''x_abc'') (Some ''def''), example_node (Some ''x_abc'') (Some ''ghi'')] {} ! 2
       \<noteq> Some ''x_abc''"
  by (simp add: example_node_def resolve_host_def host_candidate_cases truthy_def dedup_def
      dedup_suffix_def last6_def)

text \<open>
  Claim C2, amended. Take two nodes of a run, at positions \<open>i < j\<close> of the node list, that
  resolve to the same candidate identifier \<open>c\<close>. The later one's final identifier is
  \<open>c\<close>, an underscore, and the last six characters of its \<open>node_id\<close> (or \<open>dup\<close> when its
  \<open>node_id\<close> is absent or empty). The earlier one keeps the unsuffixed \<open>c\<close> provided \<open>c\<close>
  is not already in the used-set when it is processed, and is suffixed in the same way
  otherwise. Every final identifier is recorded in the used-set, which is the set the
  loop ends with. In particular, in a run of just two nodes with the same candidate the
  first is \<open>c\<close>, the second the suffixed form, and the used-set holds both.
\<close>

theorem dedup_of_two_nodes:
  "(i < j \<and> j < length ns \<and> host_candidate naming (ns ! i) = Some c
      \<and> host_candidate naming (ns ! j) = Some c \<longrightarrow>
      resolve_hosts naming ns seen ! j = Some (c @ ''_'' @ dedup_suffix (ns ! j))
      \<and> dedup_suffix (ns ! j) =
          (case node_id (ns ! j) of
             None \<Rightarrow> ''dup''
           | Some d \<Rightarrow> if d = [] then ''dup'' else drop (length d - 6) d)
      \<and> resolve_hosts naming ns seen ! i =
          Some (if c \<in> seen_after naming (take i ns) seen
                then c @ ''_'' @ dedup_suffix (ns ! i) else c)
      \<and> c \<in> seen_after naming ns seen
      \<and> c @ ''_'' @ dedup_suffix (ns ! j) \<in> seen_after naming ns seen)
   \<and> (k < length ns \<and> resolve_hosts naming ns seen ! k = Some h \<longrightarrow>
        h \<in> seen_after naming ns seen)
   \<and> (constructed e = no_constructed \<longrightarrow>
        fst (snd (process_nodes cfg e ch pid ns seen iv)) = seen_after (host_naming cfg) ns seen)
   \<and> (host_candidate naming a = Some c \<and> host_candidate naming b = Some c \<longrightarrow>
        resolve_hosts naming [a, b] {} = [Some c, Some (c @ ''_'' @ dedup_suffix b)]
        \<and> seen_after naming [a, b] {} = {c, c @ ''_'' @ dedup_suffix b})"
proof (intro conjI impI)
  assume a: "i < j \<and> j < length ns \<and> host_candidate naming (ns ! i) = Some c
      \<and> host_candidate naming (ns ! j) = Some c"
  then have i: "i < length ns" and j: "j < length ns" and ij: "Suc i \<le> j"
    and ci: "host_candidate naming (ns ! i) = Some c"
    and cj: "host_candidate naming (ns ! j) = Some c"
    by simp_all
  have "c \<in> seen_after naming (take (Suc i) ns) seen"
    using i ci by (rule candidate_recorded)
  then have used: "c \<in> seen_after naming (take j ns) seen"
    using seen_after_take_mono [OF ij, of naming ns seen] by auto
  show fj: "resolve_hosts naming ns seen ! j = Some (c @ ''_'' @ dedup_suffix (ns ! j))"
    using used by (simp add: resolve_hosts_nth [OF j] resolve_host_def cj dedup_def)
  show "dedup_suffix (ns ! j) =
          (case node_id (ns ! j) of
             None \<Rightarrow> ''dup''
           | Some d \<Rightarrow> if d = [] then ''dup'' else drop (length d - 6) d)"
    by (simp add: dedup_suffix_def last6_def split: option.splits)
  show "resolve_hosts naming ns seen ! i =
          Some (if c \<in> seen_after naming (take i ns) seen
                then c @ ''_'' @ dedup_suffix (ns ! i) else c)"
    by (simp add: resolve_hosts_nth [OF i] resolve_host_def ci dedup_def)
  show "c \<in> seen_after naming ns seen"
    using used seen_after_take_mono [of j "length ns" naming ns seen] j by auto
  show "c @ ''_'' @ dedup_suffix (ns ! j) \<in> seen_after naming ns seen"
    using j fj by (rule final_recorded)
next
  assume "k < length ns \<and> resolve_hosts naming ns seen ! k = Some h"
  then show "h \<in> seen_after naming ns seen"
    using final_recorded by blast
next
  assume "constructed e = no_constructed"
  then show "fst (snd (process_nodes cfg e ch pid ns seen iv)) = seen_after (host_naming cfg) ns seen"
    using process_nodes_no_constructed [of e cfg ch pid ns seen iv] by auto
next
  assume ab: "host_candidate naming a = Some c \<and> host_candidate naming b = Some c"
  then show "resolve_hosts naming [a, b] {} = [Some c, Some (c @ ''_'' @ dedup_suffix b)]"
    by (simp add: resolve_host_def dedup_def)
  from ab show "seen_after naming [a, b] {} = {c, c @ ''_'' @ dedup_suffix b}"
    by (auto simp: resolve_host_def dedup_def)
qed

text \<open>
  Two nodes named R1: the second becomes R1 followed by the last six characters of its
  id, or by dup without an id; a third node between them changes nothing.
\<close>

theorem dedup_of_two_nodes_witness:
  "resolve_hosts ''name''
     [example_node (Some ''R1'') (Some ''n1''), example_node (Some ''R2'') (Some ''n2''),
      example_node (Some ''R1'') (Some ''0123456789'')] {} ! 2 = Some ''R1_456789''
   \<and> resolve_hosts ''name''
     [example_node (Some ''R1'') (Some ''n1''), example_node (Some ''R2'') (Some ''n2''),
      example_node (Some ''R1'') (Some ''0123456789'')] {} ! 0 = Some ''R1''
   \<and> resolve_hosts ''name''
     [example_node (Some ''R1'') (Some ''n1''), example_node (Some ''R1'') None] {}
     = [Some ''R1'', Some ''R1_dup'']
   \<and> seen_after ''name''
     [example_node (Some ''R1'') (Some ''n1''), example_node (Some ''R1'') None] {}
     = {''R1'', ''R1_dup''}
   \<and> ''R2'' \<in> seen_after ''name''
     [example_node (Some ''R1'') (Some ''n1''), example_node (Some ''R2'') (Some ''n2''),
      example_node (Some ''R1'') (Some ''0123456789'')] {}
   \<and> fst (snd (process_nodes example_config example_env ''gns3.example.com'' (Some ''p1'')
       [example_node (Some ''R1'') (Some ''n1''), example_node (Some ''R1'') None] {} empty_inventory))
     = {''R1'', ''R1_dup''}"
proof -
  let ?three = "[example_node (Some ''R1'') (Some ''n1''), example_node (Some ''R2'') (Some ''n2''),
      example_node (Some ''R1'') (Some ''0123456789'')]"
  let ?two = "[example_node (Some ''R1'') (Some ''n1''), example_node (Some ''R1'') None]"
  have c: "host_candidate ''name'' (example_node (Some nm) i) = (if nm = [] then (if truthy i then i else None) else Some nm)"
    for nm i
    by (simp add: example_node_def host_candidate_cases truthy_def)
  have hook: "constructed example_env = no_constructed"
    by (simp add: example_env_def)
  have n: "host_naming example_config = ''name''"
    by (simp add: example_config_def)
  note t1 = dedup_of_two_nodes [where i = 0 and j = 2 and naming = "''name''" and c = "''R1''"
      and seen = "{}" and ns = ?three, THEN conjunct1]
  note t2 = dedup_of_two_nodes [where k = 1 and h = "''R2''" and naming = "''name''"
      and seen = "{}" and ns = ?three, THEN conjunct2, THEN conjunct1]
  note t3 = dedup_of_two_nodes [where e = example_env and cfg = example_config
      and ch = "''gns3.example.com''" and pid = "Some ''p1''" and ns = ?two and seen = "{}"
      and iv = empty_inventory, THEN conjunct2, THEN conjunct2, THEN conjunct1, THEN mp, OF hook]
  note t4 = dedup_of_two_nodes [where naming = "''name''" and c = "''R1''"
      and a = "example_node (Some ''R1'') (Some ''n1'')" and b = "example_node (Some ''R1'') None",
      THEN conjunct2, THEN conjunct2, THEN conjunct2]
  have s: "dedup_suffix (example_node (Some ''R1'') None) = ''dup''"
    by (simp add: dedup_suffix_def example_node_def)
  have 4: "resolve_hosts ''name'' ?two {} = [Some ''R1'', Some ''R1_dup'']"
    and 5: "seen_after ''name'' ?two {} = {''R1'', ''R1_dup''}"
    using t4 by (simp_all add: c s)
  have 1: "resolve_hosts ''name'' ?three {} ! 2 = Some ''R1_456789''"
    and 2: "resolve_hosts ''name'' ?three {} ! 0 = Some ''R1''"
    using t1 by (simp_all add: c) (simp_all add: example_node_def)
  have "resolve_hosts ''name'' ?three {} ! 1 = Some ''R2''"
    by (simp add: resolve_host_def c dedup_def)
  with t2 have 3: "''R2'' \<in> seen_after ''name'' ?three {}"
    by simp
  from t3 5 have 6: "fst (snd (process_nodes example_config example_env ''gns3.example.com'' (Some ''p1'')
       ?two {} empty_inventory)) = {''R1'', ''R1_dup''}"
    by (simp only: n)
  from 1 2 3 4 5 6 show ?thesis
    by (intro conjI)
qed

text \<open>
  Claim C3, as stated, fails: the suffixed identifier is not checked against the
  used-set. Three nodes with distinct ids, the first named R1_abcdef and two named R1,
  the last with an id ending in abcdef, give the identifier R1_abcdef twice; so do three
  nodes that share a name and an id.
\<close>

theorem duplicate_identifier_counterexample:
  "emitted_hosts ''name''
     [example_node (Some ''R1_abcdef'') (Some ''id-000001''), example_node (Some ''R1'') (Some ''id-000002''),
      example_node (Some ''R1'') (Some ''id-abcdef'')] {}
     = [''R1_abcdef'', ''R1'', ''R1_abcdef'']
   \<and> \<not> distinct (emitted_hosts ''name''
     [example_node (Some ''R1_abcdef'') (Some ''id-000001''), example_node (Some ''R1'') (Some ''id-000002''),
      example_node (Some ''R1'') (Some ''id-abcdef'')] {})
   \<and> emitted_hosts ''name''
     [example_node (Some ''x'') (Some ''abc''), example_node (Some ''x'') (Some ''abc''),
      example_node (Some ''x'') (Some ''abc'')] {}
     = [''x'', ''x_abc'', ''x_abc'']"
  by (simp add: emitted_hosts_def example_node_def resolve_host_def
      host_candidate_cases truthy_def dedup_def dedup_suffix_def last6_def)

text \<open>
  Claim C3, amended. The identifiers emitted in a run are pairwise distinct exactly when
  no suffixed identifier is already in the used-set when it is formed; the code does not
  check the suffixed form and does not retry. An identifier emitted without a suffix
  differs from every identifier emitted before it. The hosts of the inventory after the
  loop are those it had before and the emitted identifiers.
\<close>

theorem emitted_hosts_distinct_iff:
  "(distinct (emitted_hosts naming ns {}) \<longleftrightarrow> \<not> suffix_collision naming ns {})
   \<and> (i < j \<and> j < length ns \<and> host_candidate naming (ns ! j) = Some c
        \<and> resolve_hosts naming ns seen ! j = Some c \<longrightarrow>
        resolve_hosts naming ns seen ! i \<noteq> Some c)
   \<and> (constructed e = no_constructed \<longrightarrow>
        (\<exists>iv'. process_nodes cfg e ch pid ns {} iv = (None, seen_after (host_naming cfg) ns {}, iv')
           \<and> dom (hosts iv') = dom (hosts iv) \<union> set (emitted_hosts (host_naming cfg) ns {})))"
proof (intro conjI impI)
  show "distinct (emitted_hosts naming ns {}) \<longleftrightarrow> \<not> suffix_collision naming ns {}"
    using collision_iff [of naming ns "{}"] by simp
next
  assume a: "i < j \<and> j < length ns \<and> host_candidate naming (ns ! j) = Some c
        \<and> resolve_hosts naming ns seen ! j = Some c"
  then have "c \<notin> seen_after naming (take j ns) seen"
    using unsuffixed_fresh by blast
  moreover have "c \<in> seen_after naming (take j ns) seen"
    if "resolve_hosts naming ns seen ! i = Some c"
    using a that earlier_recorded by blast
  ultimately show "resolve_hosts naming ns seen ! i \<noteq> Some c"
    by blast
next
  assume "constructed e = no_constructed"
  then show "\<exists>iv'. process_nodes cfg e ch pid ns {} iv = (None, seen_after (host_naming cfg) ns {}, iv')
           \<and> dom (hosts iv') = dom (hosts iv) \<union> set (emitted_hosts (host_naming cfg) ns {})"
    by (rule process_nodes_no_constructed)
qed

text \<open>
  Three nodes named R1 with ids ending differently get three identifiers; the loop adds
  exactly these hosts to the empty inventory.
\<close>

theorem emitted_hosts_distinct_iff_witness:
  "distinct (emitted_hosts ''name''
     [example_node (Some ''R1'') (Some ''id-000001''), example_node (Some ''R1'') (Some ''id-000002''),
      example_node (Some ''R1'') (Some ''id-000003'')] {})
   \<and> resolve_hosts ''name''
     [example_node (Some ''R1'') (Some ''id-000001''), example_node (Some ''R2'') (Some ''id-000002'')] {} ! 0
     \<noteq> Some ''R2''
   \<and> (\<exists>iv'. process_nodes example_config example_env ''gns3.example.com'' (Some ''p1'')
           [example_node (Some ''R1'') (Some ''id-000001''), example_node (Some ''R1'') (Some ''id-000002'')]
           {} empty_inventory = (None, {''R1'', ''R1_000002''}, iv')
         \<and> dom (hosts iv') = {''R1'', ''R1_000002''})"
  using
    emitted_hosts_distinct_iff [where naming = "''name''"
      and ns = "[example_node (Some ''R1'') (Some ''id-000001''), example_node (Some ''R1'') (Some ''id-000002''),
                 example_node (Some ''R1'') (Some ''id-000003'')]", THEN conjunct1]
    emitted_hosts_distinct_iff [where naming = "''name''" and i = 0 and j = 1 and c = "''R2''"
      and seen = "{}"
      and ns = "[example_node (Some ''R1'') (Some ''id-000001''), example_node (Some ''R2'') (Some ''id-000002'')]",
      THEN conjunct2, THEN conjunct1]
    emitted_hosts_distinct_iff [where e = example_env and cfg = example_config
      and ch = "''gns3.example.com''" and pid = "Some ''p1''" and iv = empty_inventory
      and ns = "[example_node (Some ''R1'') (Some ''id-000001''), example_node (Some ''R1'') (Some ''id-000002'')]",
      THEN conjunct2, THEN conjunct2]
  by (simp add: example_node_def example_env_def example_config_def empty_inventory_def
      emitted_hosts_def resolve_host_def host_candidate_cases truthy_def
      dedup_def dedup_suffix_def last6_def insert_commute)

subsection \<open>Groups\<close>

lemma groups_set_variable [simp]: "groups (set_variable h k v iv) = groups iv"
  by (simp add: set_variable_def)

lemma groups_set_variables [simp]: "groups (set_variables h kvs iv) = groups iv"
  by (induction kvs arbitrary: iv) auto

lemma members_set_variables [simp]: "members (set_variables h kvs iv) g = members iv g"
  by (simp add: members_def)

lemma groups_add_child: "groups (add_child g h iv) = (groups iv)(g \<mapsto> insert h (members iv g))"
  by (simp add: add_child_def)

lemma members_add_child:
  "members (add_child g h iv) g' = (if g' = g then insert h (members iv g) else members iv g')"
  by (simp add: add_child_def members_def)

lemma members_add_group [simp]: "members (add_group g iv) g' = members iv g'"
  by (simp add: add_group_def members_def split: option.splits)

lemma dom_groups_add_group [simp]: "dom (groups (add_group g iv)) = insert g (dom (groups iv))"
  by (auto simp: add_group_def split: option.splits)

lemma add_group_idem: "add_group g (add_group g iv) = add_group g iv"
  by (simp add: add_group_def split: option.splits)

lemma members_add_host:
  "members (add_host h g iv) g' = (if g' = g then insert h (members iv g) else members iv g')"
  by (simp add: add_host_def add_child_def members_def split: option.splits)

lemma groups_add_host: "groups (add_host h g iv) = (groups iv)(g \<mapsto> insert h (members iv g))"
  by (simp add: add_host_def add_child_def members_def split: option.splits)

lemma groups_add_group_parent [simp]: "groups (add_group P iv) P \<noteq> None"
  by (simp add: add_group_def split: option.splits)

lemma parent_covers_start: "parent_covers iv P (add_group P iv)"
  by (simp add: parent_covers_def)

lemma groups_add_group_keeps: "groups iv P \<noteq> None \<Longrightarrow> groups (add_group g iv) P \<noteq> None"
  by (simp add: add_group_def split: option.splits)

lemma parent_covers_add_group:
  "parent_covers iv0 P iv \<Longrightarrow> parent_covers iv0 P (add_group g iv)"
  by (simp add: parent_covers_def groups_add_group_keeps)

lemma parent_covers_add_child:
  assumes "parent_covers iv0 P iv" and "h \<in> members iv P"
  shows "parent_covers iv0 P (add_child g h iv)"
  using assms by (auto simp: parent_covers_def members_add_child groups_add_child)

lemma parent_covers_add_host:
  assumes "parent_covers iv0 P iv"
  shows "parent_covers iv0 P (add_host h P iv)" and "h \<in> members (add_host h P iv) P"
  using assms by (auto simp: parent_covers_def members_add_host groups_add_host)

lemma parent_covers_set_variables:
  assumes "parent_covers iv0 P iv" and "h \<in> dom (hosts iv)"
  shows "parent_covers iv0 P (set_variables h kvs iv)"
  using assms by (simp add: parent_covers_def dom_hosts_set_variables)

lemma parent_covers_group_by_type:
  assumes "parent_covers iv0 P iv" and "h \<in> members iv P"
  shows "parent_covers iv0 P (group_by_type cfg n h iv)"
  using assms
  by (simp add: group_by_type_def Let_def parent_covers_add_child parent_covers_add_group)

lemma members_emit_host_parent: "h \<in> members (emit_host cfg ch pid n h iv) (parent_group cfg)"
  by (simp add: emit_host_def group_by_type_def Let_def members_add_child add_host_def)

lemma parent_covers_emit_host:
  assumes "parent_covers iv0 (parent_group cfg) iv"
  shows "parent_covers iv0 (parent_group cfg) (emit_host cfg ch pid n h iv)"
proof -
  let ?P = "parent_group cfg"
  have 1: "parent_covers iv0 ?P (add_host h ?P iv)" and 2: "h \<in> members (add_host h ?P iv) ?P"
    using assms by (rule parent_covers_add_host)+
  have 3: "parent_covers iv0 ?P (set_variables h (host_vars cfg ch pid n) (add_host h ?P iv))"
    using 1 by (rule parent_covers_set_variables) simp
  show ?thesis
    unfolding emit_host_def using 3 2 by (intro parent_covers_group_by_type) simp_all
qed

lemma members_emit_host_type:
  assumes "group_by_node_type cfg" and "truthy (node_type n)"
  shows "h \<in> members (emit_host cfg ch pid n h iv) (''gns3_type_'' @ fmt (node_type n))"
  using assms by (simp add: emit_host_def group_by_type_def Let_def members_add_child)

lemma dom_groups_emit_host:
  "dom (groups (emit_host cfg ch pid n h iv)) =
     insert (parent_group cfg) (dom (groups iv)) \<union> type_groups cfg [n]"
  by (auto simp: emit_host_def group_by_type_def Let_def groups_add_child add_host_def type_groups_def
      split: option.splits)

lemma type_groups_Cons: "type_groups cfg (n # ns) = type_groups cfg [n] \<union> type_groups cfg ns"
  by (auto simp: type_groups_def)

text \<open>
  The loop keeps the parent group covering, under constructed-variables calls that keep
  it so when made for a host of the inventory that is in the parent group.
\<close>

lemma process_nodes_parent_covers:
  assumes "\<forall>h iv. parent_covers iv0 (parent_group cfg) iv \<and> h \<in> members iv (parent_group cfg)
               \<and> h \<in> dom (hosts iv) \<longrightarrow>
             parent_covers iv0 (parent_group cfg) (snd (constructed e h iv))"
    and "parent_covers iv0 (parent_group cfg) iv"
    and "process_nodes cfg e ch pid ns seen iv = (r, seen', iv')"
  shows "parent_covers iv0 (parent_group cfg) iv'"
  using assms(2,3)
proof (induction ns arbitrary: seen iv)
  case Nil
  then show ?case by simp
next
  case (Cons n ns)
  show ?case
  proof (cases "resolve_host (host_naming cfg) n seen")
    case None
    with Cons.prems have "process_nodes cfg e ch pid ns seen iv = (r, seen', iv')"
      by simp
    from Cons.IH [OF Cons.prems(1) this] show ?thesis .
  next
    case (Some h)
    let ?iv = "emit_host cfg ch pid n h iv"
    obtain err iv2 where c: "constructed e h ?iv = (err, iv2)"
      by (cases "constructed e h ?iv")
    have 1: "parent_covers iv0 (parent_group cfg) ?iv"
      using Cons.prems(1) by (rule parent_covers_emit_host)
    have 2: "h \<in> members ?iv (parent_group cfg)"
      by (rule members_emit_host_parent)
    have 3: "h \<in> dom (hosts ?iv)"
      by (simp add: dom_hosts_emit_host)
    have "parent_covers iv0 (parent_group cfg) (snd (constructed e h ?iv))"
      using assms(1) 1 2 3 by blast
    then have pc: "parent_covers iv0 (parent_group cfg) iv2"
      by (simp add: c)
    show ?thesis
    proof (cases err)
      case None
      with Cons.prems(2) have "process_nodes cfg e ch pid ns (insert h seen) iv2 = (r, seen', iv')"
        by (simp add: Some c)
      from Cons.IH [OF pc this] show ?thesis .
    next
      case (Some x)
      with Cons.prems(2) have "iv' = iv2"
        by (simp add: \<open>resolve_host (host_naming cfg) n seen = Some h\<close> c)
      with pc show ?thesis by simp
    qed
  qed
qed

lemma process_nodes_groups:
  assumes "constructed e = no_constructed"
    and "process_nodes cfg e ch pid ns seen iv = (r, seen', iv')"
  shows "dom (groups iv') \<subseteq> insert (parent_group cfg) (dom (groups iv)) \<union> type_groups cfg ns"
  using assms(2)
proof (induction ns arbitrary: seen iv)
  case Nil
  then show ?case by auto
next
  case (Cons n ns)
  show ?case
  proof (cases "resolve_host (host_naming cfg) n seen")
    case None
    with Cons.prems have "process_nodes cfg e ch pid ns seen iv = (r, seen', iv')"
      by simp
    from Cons.IH [OF this] show ?thesis
      by (auto simp: type_groups_Cons [of cfg n ns])
  next
    case (Some h)
    from Cons.prems have "process_nodes cfg e ch pid ns (insert h seen) (emit_host cfg ch pid n h iv)
        = (r, seen', iv')"
      by (simp add: Some assms(1) no_constructed_def)
    from Cons.IH [OF this] show ?thesis
      by (auto simp: dom_groups_emit_host type_groups_Cons [of cfg n ns])
  qed
qed

lemma build_no_nodes:
  "src_nodes src = [] \<Longrightarrow>
     build cfg e ch src st = (None, st\<lparr>inventory := add_group (parent_group cfg) (inventory st)\<rparr>)"
  by (simp add: build_def)

lemma build_result:
  assumes "build cfg e ch src st = (r, st')"
  shows "\<exists>seen'. process_nodes cfg e ch (src_project_id src) (src_nodes src) {}
            (add_group (parent_group cfg) (inventory st)) = (r, seen', inventory st')"
    and "cache st' = cache st" and "requests st' = requests st"
  using assms by (auto simp: build_def Let_def split: prod.splits)

text \<open>The model of the run and its calls on the store agree.\<close>

lemma run_calls_append:
  "run_calls e (xs @ ys) iv =
    (case run_calls e xs iv of
       (Some err, iv') \<Rightarrow> (Some err, iv')
     | (None, iv') \<Rightarrow> run_calls e ys iv')"
  by (induction xs arbitrary: iv) (auto split: prod.splits option.splits)

lemma run_calls_set_variables:
  "run_calls e (map (\<lambda>(k, v). SetVariable h k v) kvs @ rest) iv
     = run_calls e rest (set_variables h kvs iv)"
  by (induction kvs arbitrary: iv) auto

lemma run_calls_emit:
  "run_calls e (emit_calls cfg ch pid n h @ rest) iv = run_calls e rest (emit_host cfg ch pid n h iv)"
proof -
  have "run_calls e (emit_calls cfg ch pid n h @ rest) iv
    = run_calls e (map (\<lambda>(k, v). SetVariable h k v) (host_vars cfg ch pid n)
        @ ((if group_by_node_type cfg \<and> truthy (node_type n)
            then [AddGroup (''gns3_type_'' @ fmt (node_type n)),
                  AddChild (''gns3_type_'' @ fmt (node_type n)) h]
            else []) @ rest)) (add_host h (parent_group cfg) iv)"
    by (simp add: emit_calls_def)
  also have "\<dots> = run_calls e rest (emit_host cfg ch pid n h iv)"
    unfolding run_calls_set_variables
    by (simp add: emit_host_def group_by_type_def Let_def)
  finally show ?thesis .
qed

lemma process_nodes_calls:
  "run_calls e (loop_calls cfg ch pid ns seen) iv
     = (fst (process_nodes cfg e ch pid ns seen iv), snd (snd (process_nodes cfg e ch pid ns seen iv)))"
proof (induction ns arbitrary: seen iv)
  case Nil
  show ?case by simp
next
  case (Cons n ns)
  show ?case
  proof (cases "resolve_host (host_naming cfg) n seen")
    case None
    then show ?thesis using Cons.IH [of seen iv] by simp
  next
    case (Some h)
    obtain err iv2 where c: "constructed e h (emit_host cfg ch pid n h iv) = (err, iv2)"
      by (cases "constructed e h (emit_host cfg ch pid n h iv)")
    show ?thesis
      using Cons.IH [of "insert h seen" iv2]
      by (cases err) (simp_all add: Some run_calls_emit c)
  qed
qed

lemma build_calls_run:
  "build cfg e ch src st =
    (case run_calls e (build_calls cfg ch src) (inventory st) of
       (r, iv') \<Rightarrow> (r, st\<lparr>inventory := iv'\<rparr>))"
  by (simp add: build_def build_calls_def process_nodes_calls Let_def split: prod.splits)

lemma filter_set_variable_calls:
  "filter is_add_host (map (\<lambda>(k, v). SetVariable h k v) kvs) = []"
  by (induction kvs) auto

lemma filter_emit_calls:
  "filter is_add_host (emit_calls cfg ch pid n h) = [AddHost h (parent_group cfg)]"
  by (simp add: emit_calls_def filter_set_variable_calls)

lemma add_host_calls:
  "filter is_add_host (loop_calls cfg ch pid ns seen)
     = map (\<lambda>h. AddHost h (parent_group cfg)) (emitted_hosts (host_naming cfg) ns seen)"
proof (induction ns arbitrary: seen)
  case Nil
  show ?case by (simp add: emitted_hosts_def)
next
  case (Cons n ns)
  show ?case
  proof (cases "resolve_host (host_naming cfg) n seen")
    case None
    then have "emitted_hosts (host_naming cfg) (n # ns) seen = emitted_hosts (host_naming cfg) ns seen"
      by (simp add: emitted_hosts_def)
    with None Cons.IH [of seen] show ?thesis by simp
  next
    case (Some h)
    then have "emitted_hosts (host_naming cfg) (n # ns) seen
        = h # emitted_hosts (host_naming cfg) ns (insert h seen)"
      by (simp add: emitted_hosts_def)
    with Some Cons.IH [of "insert h seen"] show ?thesis
      by (simp add: filter_emit_calls)
  qed
qed

lemma emit_calls_child:
  assumes "emit_calls cfg ch pid n host = xs @ AddChild g h # ys"
  shows "AddHost h (parent_group cfg) \<in> set xs"
proof (cases xs)
  case Nil
  with assms show ?thesis by (simp add: emit_calls_def)
next
  case (Cons x xs')
  with assms have x: "x = AddHost host (parent_group cfg)"
    by (simp add: emit_calls_def)
  have "AddChild g h \<in> set (emit_calls cfg ch pid n host)"
    using assms by simp
  then have "h = host"
    by (auto simp: emit_calls_def split: if_splits)
  with x Cons show ?thesis by simp
qed

lemma loop_calls_child:
  assumes "loop_calls cfg ch pid ns seen = xs @ AddChild g h # ys"
  shows "AddHost h (parent_group cfg) \<in> set xs"
  using assms
proof (induction ns arbitrary: seen xs)
  case Nil
  then show ?case by simp
next
  case (Cons n ns)
  show ?case
  proof (cases "resolve_host (host_naming cfg) n seen")
    case None
    with Cons.prems have "loop_calls cfg ch pid ns seen = xs @ AddChild g h # ys"
      by simp
    then show ?thesis by (rule Cons.IH)
  next
    case (Some host)
    let ?E = "emit_calls cfg ch pid n host"
    let ?R = "loop_calls cfg ch pid ns (insert host seen)"
    from Cons.prems Some have eq: "(?E @ [Constructed host]) @ ?R = xs @ AddChild g h # ys"
      by simp
    then consider us where "?E @ [Constructed host] = xs @ us" and "us @ ?R = AddChild g h # ys"
      | us where "(?E @ [Constructed host]) @ us = xs" and "?R = us @ AddChild g h # ys"
      unfolding append_eq_append_conv2 by blast
    then show ?thesis
    proof cases
      case 1
      show ?thesis
      proof (cases us)
        case Nil
        with 1 have "?R = [] @ AddChild g h # ys" by simp
        then have "AddHost h (parent_group cfg) \<in> set []" by (rule Cons.IH)
        then show ?thesis by simp
      next
        case (Cons u us')
        with 1 have u: "u = AddChild g h" and b: "?E @ [Constructed host] = xs @ AddChild g h # us'"
          by simp_all
        have "us' \<noteq> []"
          using b by (metis append_Cons append_Nil last_appendR last_snoc list.distinct(1)
              store_call.distinct(19) last.simps)
        then obtain zs z where us': "us' = zs @ [z]"
          by (metis append_butlast_last_id)
        with b have "?E @ [Constructed host] = (xs @ AddChild g h # zs) @ [z]"
          by simp
        then have "?E = xs @ AddChild g h # zs"
          by (simp only: append1_eq_conv)
        then show ?thesis by (rule emit_calls_child)
      qed
    next
      case 2
      from 2(2) have "AddHost h (parent_group cfg) \<in> set us" by (rule Cons.IH)
      with 2(1) show ?thesis by auto
    qed
  qed
qed

lemma build_calls_child:
  assumes "build_calls cfg ch src = xs @ AddChild g h # ys"
  shows "AddHost h (parent_group cfg) \<in> set xs"
proof (cases xs)
  case Nil
  with assms show ?thesis by (simp add: build_calls_def)
next
  case (Cons x xs')
  with assms have "loop_calls cfg ch (src_project_id src) (src_nodes src) {} = xs' @ AddChild g h # ys"
    by (simp add: build_calls_def)
  then have "AddHost h (parent_group cfg) \<in> set xs'" by (rule loop_calls_child)
  with Cons show ?thesis by simp
qed

lemma parent_covers_running_group:
  assumes "parent_covers iv0 P iv" and "h \<in> members iv P"
  shows "parent_covers iv0 P (snd (running_group h iv))"
  using assms by (simp add: running_group_def parent_covers_add_child parent_covers_add_group)

lemma emit_calls_type_group:
  "AddChild g h \<in> set (emit_calls cfg ch pid n host) \<Longrightarrow> g \<in> type_groups cfg [n]"
  by (auto simp: emit_calls_def type_groups_def split: if_splits)

lemma loop_calls_type_group:
  "AddChild g h \<in> set (loop_calls cfg ch pid ns seen) \<Longrightarrow> g \<in> type_groups cfg ns"
proof (induction ns arbitrary: seen)
  case Nil
  then show ?case by simp
next
  case (Cons n ns)
  show ?case
  proof (cases "resolve_host (host_naming cfg) n seen")
    case None
    with Cons.prems have "AddChild g h \<in> set (loop_calls cfg ch pid ns seen)"
      by simp
    then have "g \<in> type_groups cfg ns" by (rule Cons.IH)
    then show ?thesis by (simp add: type_groups_Cons [of cfg n ns])
  next
    case (Some host)
    with Cons.prems consider "AddChild g h \<in> set (emit_calls cfg ch pid n host)"
      | "AddChild g h \<in> set (loop_calls cfg ch pid ns (insert host seen))"
      by auto
    then show ?thesis
    proof cases
      case 1
      then have "g \<in> type_groups cfg [n]" by (rule emit_calls_type_group)
      then show ?thesis by (simp add: type_groups_Cons [of cfg n ns])
    next
      case 2
      then have "g \<in> type_groups cfg ns" by (rule Cons.IH)
      then show ?thesis by (simp add: type_groups_Cons [of cfg n ns])
    qed
  qed
qed

text \<open>
  Claim C8. In every run the calls on the inventory store begin with the creation of the
  parent group, before any host is added, and creating a group twice changes nothing.
  Every mapped host is added with the parent group as its group, in node order; a host
  placed in a type group, \<open>gns3_type_\<close> followed by its node type, was added to the
  parent group earlier, and type groups are used only when \<open>group_by_node_type\<close> is set
  and the type is not empty. Whatever inventory the run starts from, and whether it ends
  or is cut short by an error of the constructed-variables calls, every host and every
  group member that the inventory has gained is a member of the parent group, provided
  the constructed-variables calls do no worse when made for a host of the parent group
  (putting that host into groups or setting its variables does not); on an empty
  inventory this is: the parent group holds every host and every member of every group.
  With the default, empty constructed options the groups gained are the parent group
  and the type groups of the nodes, and no others.
\<close>

theorem parent_group_superset:
  "groups (add_group (parent_group cfg) iv) (parent_group cfg) \<noteq> None
   \<and> add_group g (add_group g iv) = add_group g iv
   \<and> build cfg e ch src st =
       (case run_calls e (build_calls cfg ch src) (inventory st) of
          (r, iv') \<Rightarrow> (r, st\<lparr>inventory := iv'\<rparr>))
   \<and> build_calls cfg ch src =
       AddGroup (parent_group cfg) # loop_calls cfg ch (src_project_id src) (src_nodes src) {}
   \<and> filter is_add_host (build_calls cfg ch src) =
       map (\<lambda>h. AddHost h (parent_group cfg)) (emitted_hosts (host_naming cfg) (src_nodes src) {})
   \<and> (build_calls cfg ch src = xs @ AddChild g h # ys \<longrightarrow>
        AddHost h (parent_group cfg) \<in> set xs
        \<and> group_by_node_type cfg
        \<and> (\<exists>n \<in> set (src_nodes src). truthy (node_type n) \<and> g = ''gns3_type_'' @ fmt (node_type n)))
   \<and> (src_nodes src = [] \<longrightarrow>
        build cfg e ch src st =
          (None, st\<lparr>inventory := add_group (parent_group cfg) (inventory st)\<rparr>))
   \<and> h \<in> members (emit_host cfg ch pid n h iv) (parent_group cfg)
   \<and> (group_by_node_type cfg \<and> truthy (node_type n) \<longrightarrow>
        h \<in> members (emit_host cfg ch pid n h iv) (''gns3_type_'' @ fmt (node_type n)))
   \<and> ((\<forall>h iv. parent_covers (inventory st) (parent_group cfg) iv
            \<and> h \<in> members iv (parent_group cfg) \<and> h \<in> dom (hosts iv) \<longrightarrow>
            parent_covers (inventory st) (parent_group cfg) (snd (constructed e h iv)))
        \<and> build cfg e ch src st = (r, st') \<longrightarrow>
        groups (inventory st') (parent_group cfg) \<noteq> None
        \<and> dom (hosts (inventory st'))
            \<subseteq> dom (hosts (inventory st)) \<union> members (inventory st') (parent_group cfg)
        \<and> (\<forall>g. members (inventory st') g
              \<subseteq> members (inventory st) g \<union> members (inventory st') (parent_group cfg)))
   \<and> ((\<forall>h iv. parent_covers empty_inventory (parent_group cfg) iv
            \<and> h \<in> members iv (parent_group cfg) \<and> h \<in> dom (hosts iv) \<longrightarrow>
            parent_covers empty_inventory (parent_group cfg) (snd (constructed e h iv)))
        \<and> build cfg e ch src (st\<lparr>inventory := empty_inventory\<rparr>) = (r, st') \<longrightarrow>
        groups (inventory st') (parent_group cfg) \<noteq> None
        \<and> dom (hosts (inventory st')) \<subseteq> members (inventory st') (parent_group cfg)
        \<and> (\<forall>g. members (inventory st') g \<subseteq> members (inventory st') (parent_group cfg)))
   \<and> (constructed e = no_constructed \<and> build cfg e ch src st = (r, st') \<longrightarrow>
        r = None
        \<and> dom (hosts (inventory st'))
            = dom (hosts (inventory st)) \<union> set (emitted_hosts (host_naming cfg) (src_nodes src) {})
        \<and> dom (groups (inventory st'))
            \<subseteq> insert (parent_group cfg) (dom (groups (inventory st)))
                \<union> type_groups cfg (src_nodes src))"
proof (intro conjI impI)
  show "groups (add_group (parent_group cfg) iv) (parent_group cfg) \<noteq> None"
    by simp
  show "add_group g (add_group g iv) = add_group g iv"
    by (rule add_group_idem)
  show "build cfg e ch src st =
       (case run_calls e (build_calls cfg ch src) (inventory st) of
          (r, iv') \<Rightarrow> (r, st\<lparr>inventory := iv'\<rparr>))"
    by (rule build_calls_run)
  show "build_calls cfg ch src =
       AddGroup (parent_group cfg) # loop_calls cfg ch (src_project_id src) (src_nodes src) {}"
    by (simp add: build_calls_def)
  show "filter is_add_host (build_calls cfg ch src) =
       map (\<lambda>h. AddHost h (parent_group cfg)) (emitted_hosts (host_naming cfg) (src_nodes src) {})"
    by (simp add: build_calls_def add_host_calls)
  show "build cfg e ch src st = (None, st\<lparr>inventory := add_group (parent_group cfg) (inventory st)\<rparr>)"
    if "src_nodes src = []"
    using that by (rule build_no_nodes)
  show "h \<in> members (emit_host cfg ch pid n h iv) (parent_group cfg)"
    by (rule members_emit_host_parent)
  show "h \<in> members (emit_host cfg ch pid n h iv) (''gns3_type_'' @ fmt (node_type n))"
    if "group_by_node_type cfg \<and> truthy (node_type n)"
    using that by (intro members_emit_host_type) simp_all
next
  assume c: "build_calls cfg ch src = xs @ AddChild g h # ys"
  then show "AddHost h (parent_group cfg) \<in> set xs"
    by (rule build_calls_child)
  have "AddChild g h \<in> set (build_calls cfg ch src)"
    using c by simp
  then have "AddChild g h \<in> set (loop_calls cfg ch (src_project_id src) (src_nodes src) {})"
    by (simp add: build_calls_def)
  then have t: "g \<in> type_groups cfg (src_nodes src)"
    by (rule loop_calls_type_group)
  then show "group_by_node_type cfg"
    by (auto simp: type_groups_def split: if_splits)
  from t show "\<exists>n \<in> set (src_nodes src). truthy (node_type n) \<and> g = ''gns3_type_'' @ fmt (node_type n)"
    by (auto simp: type_groups_def split: if_splits)
next
  assume a: "(\<forall>h iv. parent_covers (inventory st) (parent_group cfg) iv
            \<and> h \<in> members iv (parent_group cfg) \<and> h \<in> dom (hosts iv) \<longrightarrow>
            parent_covers (inventory st) (parent_group cfg) (snd (constructed e h iv)))
        \<and> build cfg e ch src st = (r, st')"
  then have hook: "\<forall>h iv. parent_covers (inventory st) (parent_group cfg) iv
            \<and> h \<in> members iv (parent_group cfg) \<and> h \<in> dom (hosts iv) \<longrightarrow>
            parent_covers (inventory st) (parent_group cfg) (snd (constructed e h iv))"
    and b: "build cfg e ch src st = (r, st')"
    by simp_all
  obtain seen' where p: "process_nodes cfg e ch (src_project_id src) (src_nodes src) {}
      (add_group (parent_group cfg) (inventory st)) = (r, seen', inventory st')"
    using build_result(1) [OF b] by auto
  have "parent_covers (inventory st) (parent_group cfg) (inventory st')"
    by (rule process_nodes_parent_covers [OF hook parent_covers_start p])
  then show "groups (inventory st') (parent_group cfg) \<noteq> None"
    and "dom (hosts (inventory st'))
            \<subseteq> dom (hosts (inventory st)) \<union> members (inventory st') (parent_group cfg)"
    and "\<forall>g. members (inventory st') g
              \<subseteq> members (inventory st) g \<union> members (inventory st') (parent_group cfg)"
    by (simp_all add: parent_covers_def)
next
  assume a: "(\<forall>h iv. parent_covers empty_inventory (parent_group cfg) iv
            \<and> h \<in> members iv (parent_group cfg) \<and> h \<in> dom (hosts iv) \<longrightarrow>
            parent_covers empty_inventory (parent_group cfg) (snd (constructed e h iv)))
        \<and> build cfg e ch src (st\<lparr>inventory := empty_inventory\<rparr>) = (r, st')"
  then have hook: "\<forall>h iv. parent_covers empty_inventory (parent_group cfg) iv
            \<and> h \<in> members iv (parent_group cfg) \<and> h \<in> dom (hosts iv) \<longrightarrow>
            parent_covers empty_inventory (parent_group cfg) (snd (constructed e h iv))"
    and b: "build cfg e ch src (st\<lparr>inventory := empty_inventory\<rparr>) = (r, st')"
    by simp_all
  obtain seen' where p: "process_nodes cfg e ch (src_project_id src) (src_nodes src) {}
      (add_group (parent_group cfg) empty_inventory) = (r, seen', inventory st')"
    using build_result(1) [OF b] by auto
  have "parent_covers empty_inventory (parent_group cfg) (inventory st')"
    by (rule process_nodes_parent_covers [OF hook parent_covers_start p])
  then show "groups (inventory st') (parent_group cfg) \<noteq> None"
    and "dom (hosts (inventory st')) \<subseteq> members (inventory st') (parent_group cfg)"
    and "\<forall>g. members (inventory st') g \<subseteq> members (inventory st') (parent_group cfg)"
    by (simp_all add: parent_covers_def empty_inventory_def members_def)
next
  assume a: "constructed e = no_constructed \<and> build cfg e ch src st = (r, st')"
  then have hook: "constructed e = no_constructed"
    and b: "build cfg e ch src st = (r, st')"
    by simp_all
  obtain seen' where p: "process_nodes cfg e ch (src_project_id src) (src_nodes src) {}
      (add_group (parent_group cfg) (inventory st)) = (r, seen', inventory st')"
    using build_result(1) [OF b] by auto
  obtain iv' where q: "process_nodes cfg e ch (src_project_id src) (src_nodes src) {}
        (add_group (parent_group cfg) (inventory st))
          = (None, seen_after (host_naming cfg) (src_nodes src) {}, iv')"
      "dom (hosts iv') = dom (hosts (add_group (parent_group cfg) (inventory st)))
          \<union> set (emitted_hosts (host_naming cfg) (src_nodes src) {})"
    using process_nodes_no_constructed [OF hook, of cfg ch "src_project_id src" "src_nodes src" "{}"
        "add_group (parent_group cfg) (inventory st)"] by blast
  from p q(1) show "r = None" by simp
  from p q show "dom (hosts (inventory st'))
      = dom (hosts (inventory st)) \<union> set (emitted_hosts (host_naming cfg) (src_nodes src) {})"
    by simp
  from process_nodes_groups [OF hook p]
  show "dom (groups (inventory st'))
      \<subseteq> insert (parent_group cfg) (dom (groups (inventory st))) \<union> type_groups cfg (src_nodes src)"
    by auto
qed

text \<open>
  The example of the specification: one project Lab with the node R1, a router with
  console 5000 on 0.0.0.0, and offset 1, here with the composed group running. The calls
  begin with the creation of gns3; the groups are gns3, gns3_type_router and running, all
  holding R1. Started on an inventory that already has a host pc1 in a group lab, the run
  leaves lab as it was and puts nothing but R1 into the other groups.
\<close>

theorem parent_group_superset_witness:
  "groups (inventory (snd (build example_config (example_env\<lparr>constructed := running_group\<rparr>)
       ''gns3.example.com''
       \<lparr>src_project_id = Some ''p1'', src_nodes = [example_node (Some ''R1'') (Some ''n1'')]\<rparr>
       empty_state)))
     = [''gns3'' \<mapsto> {''R1''}, ''gns3_type_router'' \<mapsto> {''R1''}, ''running'' \<mapsto> {''R1''}]
   \<and> members (inventory (snd (build example_config (example_env\<lparr>constructed := running_group\<rparr>)
       ''gns3.example.com''
       \<lparr>src_project_id = Some ''p1'', src_nodes = [example_node (Some ''R1'') (Some ''n1'')]\<rparr>
       empty_state))) ''running''
      \<subseteq> members (inventory (snd (build example_config (example_env\<lparr>constructed := running_group\<rparr>)
       ''gns3.example.com''
       \<lparr>src_project_id = Some ''p1'', src_nodes = [example_node (Some ''R1'') (Some ''n1'')]\<rparr>
       empty_state))) ''gns3''
   \<and> members (inventory (snd (build example_config (example_env\<lparr>constructed := running_group\<rparr>)
       ''gns3.example.com''
       \<lparr>src_project_id = Some ''p1'', src_nodes = [example_node (Some ''R1'') (Some ''n1'')]\<rparr>
       (empty_state\<lparr>inventory := lab_inventory\<rparr>)))) ''lab''
      \<subseteq> {''pc1''} \<union> members (inventory (snd (build example_config
       (example_env\<lparr>constructed := running_group\<rparr>) ''gns3.example.com''
       \<lparr>src_project_id = Some ''p1'', src_nodes = [example_node (Some ''R1'') (Some ''n1'')]\<rparr>
       (empty_state\<lparr>inventory := lab_inventory\<rparr>)))) ''gns3''
   \<and> dom (hosts (inventory (snd (build example_config example_env ''gns3.example.com''
       \<lparr>src_project_id = Some ''p1'', src_nodes = [example_node (Some ''R1'') (Some ''n1'')]\<rparr>
       empty_state)))) = {''R1''}
   \<and> build example_config example_env ''gns3.example.com''
       \<lparr>src_project_id = Some ''p1'', src_nodes = []\<rparr> empty_state
     = (None, empty_state\<lparr>inventory := \<lparr>groups = [''gns3'' \<mapsto> {}], hosts = Map.empty\<rparr>\<rparr>)
   \<and> ''R1'' \<in> members (emit_host example_config ''gns3.example.com'' (Some ''p1'')
       (example_node (Some ''R1'') (Some ''n1'')) ''R1'' empty_inventory) ''gns3_type_router''
   \<and> build_calls example_config ''gns3.example.com''
       \<lparr>src_project_id = Some ''p1'', src_nodes = [example_node (Some ''R1'') (Some ''n1'')]\<rparr>
     = (AddGroup ''gns3'' # AddHost ''R1'' ''gns3''
        # map (\<lambda>(k, v). SetVariable ''R1'' k v)
            (host_vars example_config ''gns3.example.com'' (Some ''p1'')
               (example_node (Some ''R1'') (Some ''n1'')))
        @ [AddGroup ''gns3_type_router''])
       @ AddChild ''gns3_type_router'' ''R1'' # [Constructed ''R1'']
   \<and> AddHost ''R1'' ''gns3'' \<in> set (AddGroup ''gns3'' # AddHost ''R1'' ''gns3''
        # map (\<lambda>(k, v). SetVariable ''R1'' k v)
            (host_vars example_config ''gns3.example.com'' (Some ''p1'')
               (example_node (Some ''R1'') (Some ''n1'')))
        @ [AddGroup ''gns3_type_router''])"
proof -
  let ?n = "example_node (Some ''R1'') (Some ''n1'')"
  let ?src = "\<lparr>src_project_id = Some ''p1'', src_nodes = [?n]\<rparr>"
  let ?e = "example_env\<lparr>constructed := running_group\<rparr>"
  let ?b = "build example_config ?e ''gns3.example.com'' ?src empty_state"
  let ?l = "build example_config ?e ''gns3.example.com'' ?src (empty_state\<lparr>inventory := lab_inventory\<rparr>)"
  let ?d = "build example_config example_env ''gns3.example.com'' ?src empty_state"
  let ?xs = "AddGroup ''gns3'' # AddHost ''R1'' ''gns3''
        # map (\<lambda>(k, v). SetVariable ''R1'' k v) (host_vars example_config ''gns3.example.com'' (Some ''p1'') ?n)
        @ [AddGroup ''gns3_type_router'']"
  have P: "parent_group example_config = ''gns3''"
    by (simp add: example_config_def)
  have hook0: "constructed example_env = no_constructed"
    by (simp add: example_env_def)
  have hook: "\<forall>h iv. parent_covers iv0 (parent_group example_config) iv
      \<and> h \<in> members iv (parent_group example_config) \<and> h \<in> dom (hosts iv) \<longrightarrow>
      parent_covers iv0 (parent_group example_config) (snd (constructed ?e h iv))" for iv0
    by (simp add: parent_covers_running_group)
  have e0: "empty_state\<lparr>inventory := empty_inventory\<rparr> = empty_state"
    and i0: "inventory empty_state = empty_inventory"
    by (simp_all add: empty_state_def)
  note t = parent_group_superset [where cfg = example_config and ch = "''gns3.example.com''"
      and src = ?src]
  \<comment> \<open>the composed group on the empty inventory\<close>
  have eqb: "build example_config ?e ''gns3.example.com'' ?src
      (empty_state\<lparr>inventory := empty_inventory\<rparr>) = (fst ?b, snd ?b)"
    by (simp add: e0)
  note tb = t [where e = ?e and st = empty_state and r = "fst ?b" and st' = "snd ?b",
      THEN conjunct2, THEN conjunct2, THEN conjunct2, THEN conjunct2, THEN conjunct2,
      THEN conjunct2, THEN conjunct2, THEN conjunct2, THEN conjunct2, THEN conjunct2,
      THEN conjunct1, THEN mp, OF conjI [OF hook eqb]]
  from tb have "members (inventory (snd ?b)) ''running''
      \<subseteq> members (inventory (snd ?b)) (parent_group example_config)"
    by (elim conjE allE)
  then have sub: "members (inventory (snd ?b)) ''running'' \<subseteq> members (inventory (snd ?b)) ''gns3''"
    by (simp only: P)
  define iv1 where "iv1 = emit_host example_config ''gns3.example.com'' (Some ''p1'') ?n ''R1''
        (add_group ''gns3'' empty_inventory)"
  have st: "vars_of iv1 ''R1'' ''gns3_status'' = Some (PStr ''started'')"
    unfolding iv1_def
    by (simp add: vars_of_emit_host map_add_def host_vars_def example_node_def of_str_def Let_def)
  have ge: "groups iv1 = [''gns3'' \<mapsto> {''R1''}, ''gns3_type_router'' \<mapsto> {''R1''}]"
    unfolding iv1_def
    by (simp add: example_config_def example_node_def empty_inventory_def emit_host_def truthy_def
        groups_add_host group_by_type_def groups_add_child members_add_host add_group_def fmt_def
        members_def Let_def)
  have rh: "resolve_host (host_naming example_config) ?n {} = Some ''R1''"
    by (simp add: resolve_host_def host_candidate_cases truthy_def dedup_def example_config_def
        example_node_def)
  have rg: "running_group ''R1'' iv1 = (None, add_child ''running'' ''R1'' (add_group ''running'' iv1))"
    by (simp add: running_group_def st)
  have pn: "process_nodes example_config ?e ''gns3.example.com'' (Some ''p1'') [?n] {}
        (add_group ''gns3'' empty_inventory)
      = (None, {''R1''}, add_child ''running'' ''R1'' (add_group ''running'' iv1))"
    by (simp add: rh rg iv1_def [symmetric])
  have ib: "inventory (snd ?b) = add_child ''running'' ''R1'' (add_group ''running'' iv1)"
    by (simp add: build_def i0 P pn Let_def del: process_nodes.simps)
  have ga: "groups (add_group ''running'' iv1)
      = [''gns3'' \<mapsto> {''R1''}, ''gns3_type_router'' \<mapsto> {''R1''}, ''running'' \<mapsto> {}]"
    by (simp add: add_group_def ge)
  have g: "groups (inventory (snd ?b))
      = [''gns3'' \<mapsto> {''R1''}, ''gns3_type_router'' \<mapsto> {''R1''}, ''running'' \<mapsto> {''R1''}]"
    by (simp add: ib groups_add_child ga members_def ge)
  \<comment> \<open>the same run on an inventory with a host and a group of its own\<close>
  have eql: "?l = (fst ?l, snd ?l)"
    by simp
  have il: "inventory (empty_state\<lparr>inventory := lab_inventory\<rparr>) = lab_inventory"
    by simp
  note tl = t [where e = ?e and st = "empty_state\<lparr>inventory := lab_inventory\<rparr>"
      and r = "fst ?l" and st' = "snd ?l",
      THEN conjunct2, THEN conjunct2, THEN conjunct2, THEN conjunct2, THEN conjunct2,
      THEN conjunct2, THEN conjunct2, THEN conjunct2, THEN conjunct2,
      THEN conjunct1, THEN mp, OF conjI [OF hook [of "inventory (empty_state\<lparr>inventory := lab_inventory\<rparr>)"] eql]]
  from tl have "members (inventory (snd ?l)) ''lab''
      \<subseteq> members (inventory (empty_state\<lparr>inventory := lab_inventory\<rparr>)) ''lab''
          \<union> members (inventory (snd ?l)) (parent_group example_config)"
    by (elim conjE allE)
  moreover have "members lab_inventory ''lab'' = {''pc1''}"
    by (simp add: members_def lab_inventory_def)
  ultimately have lab: "members (inventory (snd ?l)) ''lab''
      \<subseteq> {''pc1''} \<union> members (inventory (snd ?l)) ''gns3''"
    by (simp only: il P)
  \<comment> \<open>the default constructed options\<close>
  have eqd: "?d = (fst ?d, snd ?d)"
    by simp
  note td = t [where e = example_env and st = empty_state and r = "fst ?d" and st' = "snd ?d",
      THEN conjunct2, THEN conjunct2, THEN conjunct2, THEN conjunct2, THEN conjunct2,
      THEN conjunct2, THEN conjunct2, THEN conjunct2, THEN conjunct2, THEN conjunct2,
      THEN conjunct2, THEN mp, OF conjI [OF hook0 eqd]]
  have h': "set (emitted_hosts (host_naming example_config) [?n] {}) = {''R1''}"
    by (simp add: emitted_hosts_def example_config_def example_node_def resolve_host_def
        host_candidate_cases truthy_def dedup_def)
  from td have h: "dom (hosts (inventory (snd ?d))) = {''R1''}"
    by (simp add: h' i0 empty_inventory_def)
  \<comment> \<open>no nodes, the type group, and the order of the calls\<close>
  have none: "build example_config example_env ''gns3.example.com''
       \<lparr>src_project_id = Some ''p1'', src_nodes = []\<rparr> empty_state
     = (None, empty_state\<lparr>inventory := \<lparr>groups = [''gns3'' \<mapsto> {}], hosts = Map.empty\<rparr>\<rparr>)"
    using parent_group_superset [where cfg = example_config and e = example_env
        and ch = "''gns3.example.com''" and src = "\<lparr>src_project_id = Some ''p1'', src_nodes = []\<rparr>"
        and st = empty_state,
        THEN conjunct2, THEN conjunct2, THEN conjunct2, THEN conjunct2, THEN conjunct2,
        THEN conjunct2, THEN conjunct1]
    by (simp add: example_config_def empty_state_def empty_inventory_def add_group_def)
  have typed: "''R1'' \<in> members (emit_host example_config ''gns3.example.com'' (Some ''p1'')
       ?n ''R1'' empty_inventory) ''gns3_type_router''"
    using parent_group_superset [where cfg = example_config and ch = "''gns3.example.com''"
        and pid = "Some ''p1''" and n = ?n and h = "''R1''" and iv = empty_inventory,
        THEN conjunct2, THEN conjunct2, THEN conjunct2, THEN conjunct2, THEN conjunct2,
        THEN conjunct2, THEN conjunct2, THEN conjunct2, THEN conjunct1]
    by (simp add: example_config_def example_node_def truthy_def fmt_def)
  have calls: "build_calls example_config ''gns3.example.com'' ?src
      = ?xs @ AddChild ''gns3_type_router'' ''R1'' # [Constructed ''R1'']"
    by (simp add: build_calls_def resolve_host_def host_candidate_cases truthy_def dedup_def
        emit_calls_def fmt_def example_config_def [THEN arg_cong, of host_naming]
        example_config_def [THEN arg_cong, of parent_group]
        example_config_def [THEN arg_cong, of group_by_node_type]
        example_node_def [THEN arg_cong, of name] example_node_def [THEN arg_cong, of node_type])
  note tc = t [where xs = ?xs and g = "''gns3_type_router''" and h = "''R1''"
      and ys = "[Constructed ''R1'']",
      THEN conjunct2, THEN conjunct2, THEN conjunct2, THEN conjunct2, THEN conjunct2,
      THEN conjunct1, THEN mp, OF calls, THEN conjunct1]
  from tc have before: "AddHost ''R1'' ''gns3'' \<in> set ?xs"
    by (simp only: P)
  from g sub lab h none typed calls before show ?thesis
    by (intro conjI)
qed

subsection \<open>Fetching and the cache\<close>

lemma process_nodes_remote_irrelevant:
  "process_nodes cfg (e\<lparr>open_projects := op, open_nodes := on\<rparr>) ch pid ns seen iv
     = process_nodes cfg e ch pid ns seen iv"
  by (induction ns arbitrary: seen iv) (auto split: option.splits prod.splits)

lemma build_remote_irrelevant:
  "build cfg (e\<lparr>open_projects := op, open_nodes := on\<rparr>) ch src st = build cfg e ch src st"
  by (simp add: build_def process_nodes_remote_irrelevant)

lemma controller_host_remote_irrelevant:
  "controller_host_from_url (e\<lparr>open_projects := op, open_nodes := on\<rparr>) u
     = controller_host_from_url e u"
  by (simp add: controller_host_from_url_def)

lemma build_elsewhere:
  assumes "build cfg e ch src st = (r, st')" and "inventory st2 = inventory st"
  shows "build cfg e ch src st2 = (r, st2\<lparr>inventory := inventory st'\<rparr>)"
  using assms by (auto simp: build_def Let_def split: prod.splits)

lemma parse_hit:
  assumes "cache_arg" and "cache_option cfg" and "cache st (cache_key cfg) = Some src"
  shows "parse cfg e cache_arg st
    = build cfg e (controller_host_from_url e (rstrip_slash (url cfg))) src st"
  using assms by (simp add: parse_def Let_def)

lemma parse_miss:
  assumes "\<not> (cache_arg \<and> cache_option cfg \<and> cache st (cache_key cfg) \<noteq> None)"
  shows "parse cfg e cache_arg st =
    (let base_url = rstrip_slash (url cfg);
         st1 = st\<lparr>requests := requests st @ [base_url @ ''/v2/projects'']\<rparr>
     in case open_projects e (base_url @ ''/v2/projects'') (validate_certs cfg) of
          Inl exc \<Rightarrow> (Some (TransportError (base_url @ ''/v2/projects'') exc), st1)
        | Inr projects \<Rightarrow>
           (case find_project_id projects (project_id cfg) (project_name cfg) of
              Inl err \<Rightarrow> (Some err, st1)
            | Inr pid \<Rightarrow>
               (let nodes_url = base_url @ ''/v2/projects/'' @ fmt pid @ ''/nodes'';
                    st2 = st1\<lparr>requests := requests st1 @ [nodes_url]\<rparr>
                in case open_nodes e nodes_url (validate_certs cfg) of
                     Inl exc \<Rightarrow> (Some (TransportError nodes_url exc), st2)
                   | Inr nodes \<Rightarrow>
                       build cfg e (controller_host_from_url e base_url)
                         \<lparr>src_project_id = pid, src_nodes = nodes\<rparr>
                         (if cache_arg \<and> cache_option cfg
                          then st2\<lparr>cache := (cache st2)(cache_key cfg \<mapsto>
                                 \<lparr>src_project_id = pid, src_nodes = nodes\<rparr>)\<rparr>
                          else st2))))"
proof -
  have "(if cache_arg \<and> cache_option cfg then cache st (cache_key cfg) else None) = None"
    using assms by auto
  then show ?thesis
    by (simp add: parse_def Let_def http_get_json_def split: sum.splits)
qed

lemma parse_success_cached:
  assumes "cache_arg" and "cache_option cfg" and "parse cfg e cache_arg st = (None, st1)"
  shows "\<exists>src st'. cache st1 (cache_key cfg) = Some src \<and> inventory st' = inventory st
    \<and> build cfg e (controller_host_from_url e (rstrip_slash (url cfg))) src st' = (None, st1)"
proof (cases "cache st (cache_key cfg)")
  case (Some src)
  then have b: "build cfg e (controller_host_from_url e (rstrip_slash (url cfg))) src st = (None, st1)"
    using assms by (simp add: parse_hit)
  then have "cache st1 = cache st"
    by (rule build_result(2))
  with Some b show ?thesis by auto
next
  case None
  then have miss: "\<not> (cache_arg \<and> cache_option cfg \<and> cache st (cache_key cfg) \<noteq> None)"
    by simp
  let ?base = "rstrip_slash (url cfg)"
  let ?st1 = "st\<lparr>requests := requests st @ [?base @ ''/v2/projects'']\<rparr>"
  from assms(3) obtain pid nodes where
    b: "build cfg e (controller_host_from_url e ?base) \<lparr>src_project_id = pid, src_nodes = nodes\<rparr>
          (?st1\<lparr>requests := requests ?st1 @ [?base @ ''/v2/projects/'' @ fmt pid @ ''/nodes''],
                 cache := (cache st)(cache_key cfg \<mapsto> \<lparr>src_project_id = pid, src_nodes = nodes\<rparr>)\<rparr>)
        = (None, st1)"
    unfolding parse_miss [OF miss]
    by (auto simp: Let_def assms(1,2) split: sum.splits)
  define src where "src = \<lparr>src_project_id = pid, src_nodes = nodes\<rparr>"
  define st' where "st' = ?st1\<lparr>requests := requests ?st1 @ [?base @ ''/v2/projects/'' @ fmt pid @ ''/nodes''],
                 cache := (cache st)(cache_key cfg \<mapsto> src)\<rparr>"
  have b': "build cfg e (controller_host_from_url e ?base) src st' = (None, st1)"
    using b by (simp add: src_def st'_def)
  have i: "inventory st' = inventory st"
    by (simp add: st'_def)
  have "cache st1 = cache st'"
    using b' by (rule build_result(2))
  then have c: "cache st1 (cache_key cfg) = Some src"
    by (simp add: st'_def)
  from c i b' show ?thesis by blast
qed

lemma build_no_constructed_ok:
  assumes "constructed e = no_constructed"
  shows "fst (build cfg e ch src st) = None"
proof -
  obtain iv' where "process_nodes cfg e ch (src_project_id src) (src_nodes src) {}
      (add_group (parent_group cfg) (inventory st))
        = (None, seen_after (host_naming cfg) (src_nodes src) {}, iv')"
    using process_nodes_no_constructed [OF assms] by blast
  then show ?thesis
    by (simp add: build_def)
qed

text \<open>
  Claim C6. When caching is enabled (the \<^verbatim>\<open>cache\<close> argument and the \<^verbatim>\<open>cache\<close> option) and
  the cache has an entry for the cache key, the run builds the inventory from that entry's
  project id and nodes, requests no URL, leaves the cache as it is, and does not depend
  on what the controller would answer. Hence after a successful run with caching enabled,
  a second run with the same configuration on the same starting inventory ends in the
  very same state, with the same hosts and groups and no further request, whatever the
  controller would answer then.
\<close>

theorem cache_hit_no_remote_calls:
  "(cache_arg \<and> cache_option cfg \<and> cache st (cache_key cfg) = Some src \<longrightarrow>
      parse cfg e cache_arg st
        = build cfg e (controller_host_from_url e (rstrip_slash (url cfg))) src st
      \<and> requests (snd (parse cfg e cache_arg st)) = requests st
      \<and> cache (snd (parse cfg e cache_arg st)) = cache st
      \<and> parse cfg (e\<lparr>open_projects := op, open_nodes := on\<rparr>) cache_arg st
          = parse cfg e cache_arg st)
   \<and> (cache_arg \<and> cache_option cfg \<and> parse cfg e cache_arg st = (None, st1) \<longrightarrow>
        parse cfg (e\<lparr>open_projects := op, open_nodes := on\<rparr>) cache_arg
          (st1\<lparr>inventory := inventory st\<rparr>) = (None, st1))"
proof (intro conjI impI)
  assume a: "cache_arg \<and> cache_option cfg \<and> cache st (cache_key cfg) = Some src"
  let ?ch = "controller_host_from_url e (rstrip_slash (url cfg))"
  show p: "parse cfg e cache_arg st = build cfg e ?ch src st"
    using a by (simp add: parse_hit)
  obtain r st' where b: "build cfg e ?ch src st = (r, st')"
    by (cases "build cfg e ?ch src st")
  show "requests (snd (parse cfg e cache_arg st)) = requests st"
    using build_result(3) [OF b] by (simp add: p b)
  show "cache (snd (parse cfg e cache_arg st)) = cache st"
    using build_result(2) [OF b] by (simp add: p b)
  have "parse cfg (e\<lparr>open_projects := op, open_nodes := on\<rparr>) cache_arg st
      = build cfg (e\<lparr>open_projects := op, open_nodes := on\<rparr>)
          (controller_host_from_url (e\<lparr>open_projects := op, open_nodes := on\<rparr>)
             (rstrip_slash (url cfg))) src st"
    using a by (simp add: parse_hit)
  then show "parse cfg (e\<lparr>open_projects := op, open_nodes := on\<rparr>) cache_arg st
      = parse cfg e cache_arg st"
    by (simp only: p build_remote_irrelevant controller_host_remote_irrelevant)
next
  assume a: "cache_arg \<and> cache_option cfg \<and> parse cfg e cache_arg st = (None, st1)"
  let ?ch = "controller_host_from_url e (rstrip_slash (url cfg))"
  let ?e = "e\<lparr>open_projects := op, open_nodes := on\<rparr>"
  from a obtain src st' where c: "cache st1 (cache_key cfg) = Some src"
    and i: "inventory st' = inventory st"
    and b: "build cfg e ?ch src st' = (None, st1)"
    using parse_success_cached [of cache_arg cfg e st st1] by blast
  have "parse cfg ?e cache_arg (st1\<lparr>inventory := inventory st\<rparr>)
      = build cfg ?e (controller_host_from_url ?e (rstrip_slash (url cfg))) src
          (st1\<lparr>inventory := inventory st\<rparr>)"
    using a c by (intro parse_hit) simp_all
  also have "\<dots> = build cfg e ?ch src (st1\<lparr>inventory := inventory st\<rparr>)"
    by (simp only: build_remote_irrelevant controller_host_remote_irrelevant)
  also have "\<dots> = (None, (st1\<lparr>inventory := inventory st\<rparr>)\<lparr>inventory := inventory st1\<rparr>)"
    using b by (rule build_elsewhere) (simp add: i)
  finally show "parse cfg ?e cache_arg (st1\<lparr>inventory := inventory st\<rparr>) = (None, st1)"
    by simp
qed

text \<open>
  A first run fetches and fills the cache; a second run, on an empty inventory again and
  with a controller that is down, ends in the state of the first without any request.
\<close>

theorem cache_hit_no_remote_calls_witness:
  "parse example_config
     (example_env\<lparr>open_projects := (\<lambda>u vc. Inl ''down''), open_nodes := (\<lambda>u vc. Inl ''down'')\<rparr>) True
     ((snd (parse example_config example_env True empty_state))\<lparr>inventory := empty_inventory\<rparr>)
    = (None, snd (parse example_config example_env True empty_state))
   \<and> requests (snd (parse example_config example_env True empty_state))
       = [''http://gns3.example.com:3080/v2/projects'',
          ''http://gns3.example.com:3080/v2/projects/p1/nodes'']
   \<and> requests (snd (parse example_config example_env True
         (empty_state\<lparr>cache := [''gns3.yml'' \<mapsto>
            \<lparr>src_project_id = Some ''p1'', src_nodes = [example_node (Some ''R1'') (Some ''n1'')]\<rparr>]\<rparr>)))
       = []"
proof -
  let ?p = "parse example_config example_env True empty_state"
  have miss: "\<not> (True \<and> cache_option example_config
      \<and> cache empty_state (cache_key example_config) \<noteq> None)"
    by (simp add: empty_state_def)
  have f: "find_project_id [\<lparr>p_project_id = Some ''p1'', p_name = Some ''Lab''\<rparr>] None (Some ''Lab'')
      = Inr (Some ''p1'')"
    by (simp add: find_project_id_def truthy_def)
  have u: "rstrip_slash ''http://gns3.example.com:3080/'' = ''http://gns3.example.com:3080''"
    by (simp add: rstrip_slash_def)
  have hook: "constructed example_env = no_constructed"
    by (simp add: example_env_def)
  obtain ch src st where pb: "?p = build example_config example_env ch src st"
    and rq: "requests st = [''http://gns3.example.com:3080/v2/projects'',
          ''http://gns3.example.com:3080/v2/projects/p1/nodes'']"
    unfolding parse_miss [OF miss]
    by (simp add: example_config_def example_env_def f u fmt_def Let_def empty_state_def)
  have ok: "fst ?p = None"
    unfolding pb using hook by (rule build_no_constructed_ok)
  have r: "requests (snd ?p) = [''http://gns3.example.com:3080/v2/projects'',
          ''http://gns3.example.com:3080/v2/projects/p1/nodes'']"
    using build_result(3) [of example_config example_env ch src st "fst ?p" "snd ?p"] pb rq
    by simp
  have eq: "?p = (None, snd ?p)"
    using ok by (simp add: prod_eq_iff)
  have c: "cache_option example_config"
    by (simp add: example_config_def)
  have i: "inventory empty_state = empty_inventory"
    by (simp add: empty_state_def)
  note t = cache_hit_no_remote_calls [where cache_arg = True and cfg = example_config
      and e = example_env and st = empty_state and ?st1.0 = "snd ?p"
      and op = "\<lambda>u vc. Inl ''down''" and on = "\<lambda>u vc. Inl ''down''",
      THEN conjunct2, THEN mp, OF conjI [OF TrueI conjI [OF c eq]]]
  have hit: "requests (snd (parse example_config example_env True
         (empty_state\<lparr>cache := [''gns3.yml'' \<mapsto>
            \<lparr>src_project_id = Some ''p1'', src_nodes = [example_node (Some ''R1'') (Some ''n1'')]\<rparr>]\<rparr>)))
       = []"
    using cache_hit_no_remote_calls [where cache_arg = True and cfg = example_config
      and e = example_env
      and st = "empty_state\<lparr>cache := [''gns3.yml'' \<mapsto>
            \<lparr>src_project_id = Some ''p1'', src_nodes = [example_node (Some ''R1'') (Some ''n1'')]\<rparr>]\<rparr>"
      and src = "\<lparr>src_project_id = Some ''p1'', src_nodes = [example_node (Some ''R1'') (Some ''n1'')]\<rparr>",
      THEN conjunct1, THEN mp, THEN conjunct2, THEN conjunct1]
    by (simp add: example_config_def empty_state_def)
  from t r hit show ?thesis
    by (simp only: i simp_thms)
qed

text \<open>
  Claim C9. On a run that has to fetch (caching off, or no entry for the cache key): if
  the request for the project list fails, the run ends with the transport error that
  wraps the URL and the underlying exception; if project resolution fails, with the
  resolver's error; if the request for the node list fails, with the transport error
  for that URL. In each case every URL was requested once and none again, and the
  inventory and the cache are those the run started with: no group or host was added and
  nothing was written to the cache.
\<close>

theorem fetch_failure_aborts:
  "\<not> (cache_arg \<and> cache_option cfg \<and> cache st (cache_key cfg) \<noteq> None) \<longrightarrow>
     (open_projects e (rstrip_slash (url cfg) @ ''/v2/projects'') (validate_certs cfg) = Inl exc \<longrightarrow>
        parse cfg e cache_arg st =
          (Some (TransportError (rstrip_slash (url cfg) @ ''/v2/projects'') exc),
           st\<lparr>requests := requests st @ [rstrip_slash (url cfg) @ ''/v2/projects'']\<rparr>))
     \<and> (open_projects e (rstrip_slash (url cfg) @ ''/v2/projects'') (validate_certs cfg) = Inr ps
          \<and> find_project_id ps (project_id cfg) (project_name cfg) = Inl err \<longrightarrow>
        parse cfg e cache_arg st =
          (Some err, st\<lparr>requests := requests st @ [rstrip_slash (url cfg) @ ''/v2/projects'']\<rparr>))
     \<and> (open_projects e (rstrip_slash (url cfg) @ ''/v2/projects'') (validate_certs cfg) = Inr ps
          \<and> find_project_id ps (project_id cfg) (project_name cfg) = Inr pid
          \<and> open_nodes e (rstrip_slash (url cfg) @ ''/v2/projects/'' @ fmt pid @ ''/nodes'')
                (validate_certs cfg) = Inl exc \<longrightarrow>
        parse cfg e cache_arg st =
          (Some (TransportError (rstrip_slash (url cfg) @ ''/v2/projects/'' @ fmt pid @ ''/nodes'') exc),
           st\<lparr>requests := requests st @
                 [rstrip_slash (url cfg) @ ''/v2/projects'',
                  rstrip_slash (url cfg) @ ''/v2/projects/'' @ fmt pid @ ''/nodes'']\<rparr>))"
proof (intro conjI impI)
  assume miss: "\<not> (cache_arg \<and> cache_option cfg \<and> cache st (cache_key cfg) \<noteq> None)"
  note p = parse_miss [OF miss, of e]
  show "parse cfg e cache_arg st =
          (Some (TransportError (rstrip_slash (url cfg) @ ''/v2/projects'') exc),
           st\<lparr>requests := requests st @ [rstrip_slash (url cfg) @ ''/v2/projects'']\<rparr>)"
    if "open_projects e (rstrip_slash (url cfg) @ ''/v2/projects'') (validate_certs cfg) = Inl exc"
    using that by (simp add: p Let_def)
  show "parse cfg e cache_arg st =
          (Some err, st\<lparr>requests := requests st @ [rstrip_slash (url cfg) @ ''/v2/projects'']\<rparr>)"
    if "open_projects e (rstrip_slash (url cfg) @ ''/v2/projects'') (validate_certs cfg) = Inr ps
          \<and> find_project_id ps (project_id cfg) (project_name cfg) = Inl err"
    using that by (simp add: p Let_def)
  show "parse cfg e cache_arg st =
          (Some (TransportError (rstrip_slash (url cfg) @ ''/v2/projects/'' @ fmt pid @ ''/nodes'') exc),
           st\<lparr>requests := requests st @
                 [rstrip_slash (url cfg) @ ''/v2/projects'',
                  rstrip_slash (url cfg) @ ''/v2/projects/'' @ fmt pid @ ''/nodes'']\<rparr>)"
    if "open_projects e (rstrip_slash (url cfg) @ ''/v2/projects'') (validate_certs cfg) = Inr ps
          \<and> find_project_id ps (project_id cfg) (project_name cfg) = Inr pid
          \<and> open_nodes e (rstrip_slash (url cfg) @ ''/v2/projects/'' @ fmt pid @ ''/nodes'')
                (validate_certs cfg) = Inl exc"
    using that by (simp add: p Let_def)
qed

text \<open>
  The controller is down; the project Lab is not on the controller; the node list
  cannot be read. Each time the empty inventory and the empty cache stay empty.
\<close>

theorem fetch_failure_aborts_witness:
  "parse example_config (example_env\<lparr>open_projects := (\<lambda>u vc. Inl ''timed out'')\<rparr>) True empty_state
     = (Some (TransportError ''http://gns3.example.com:3080/v2/projects'' ''timed out''),
        \<lparr>inventory = empty_inventory, cache = Map.empty,
         requests = [''http://gns3.example.com:3080/v2/projects'']\<rparr>)
   \<and> parse (example_config\<lparr>project_name := Some ''Other''\<rparr>) example_env True empty_state
     = (Some (NotFound ''GNS3 inventory: project_name not found: Other''),
        \<lparr>inventory = empty_inventory, cache = Map.empty,
         requests = [''http://gns3.example.com:3080/v2/projects'']\<rparr>)
   \<and> parse example_config (example_env\<lparr>open_nodes := (\<lambda>u vc. Inl ''HTTP Error 500'')\<rparr>) True empty_state
     = (Some (TransportError ''http://gns3.example.com:3080/v2/projects/p1/nodes'' ''HTTP Error 500''),
        \<lparr>inventory = empty_inventory, cache = Map.empty,
         requests = [''http://gns3.example.com:3080/v2/projects'',
                     ''http://gns3.example.com:3080/v2/projects/p1/nodes'']\<rparr>)"
proof -
  have u: "rstrip_slash ''http://gns3.example.com:3080/'' = ''http://gns3.example.com:3080''"
    by (simp add: rstrip_slash_def)
  have f1: "find_project_id [\<lparr>p_project_id = Some ''p1'', p_name = Some ''Lab''\<rparr>] None (Some ''Other'')
      = Inl (NotFound ''GNS3 inventory: project_name not found: Other'')"
    by (simp add: find_project_id_def truthy_def fmt_def)
  have f2: "find_project_id [\<lparr>p_project_id = Some ''p1'', p_name = Some ''Lab''\<rparr>] None (Some ''Lab'')
      = Inr (Some ''p1'')"
    by (simp add: find_project_id_def truthy_def)
  note t1 = fetch_failure_aborts [where cache_arg = True and cfg = example_config
      and e = "example_env\<lparr>open_projects := (\<lambda>u vc. Inl ''timed out'')\<rparr>" and st = empty_state
      and exc = "''timed out''", THEN mp, THEN conjunct1, THEN mp]
  note t2 = fetch_failure_aborts [where cache_arg = True
      and cfg = "example_config\<lparr>project_name := Some ''Other''\<rparr>"
      and e = example_env and st = empty_state
      and ps = "[\<lparr>p_project_id = Some ''p1'', p_name = Some ''Lab''\<rparr>]"
      and err = "NotFound ''GNS3 inventory: project_name not found: Other''",
      THEN mp, THEN conjunct2, THEN conjunct1, THEN mp]
  note t3 = fetch_failure_aborts [where cache_arg = True and cfg = example_config
      and e = "example_env\<lparr>open_nodes := (\<lambda>u vc. Inl ''HTTP Error 500'')\<rparr>" and st = empty_state
      and ps = "[\<lparr>p_project_id = Some ''p1'', p_name = Some ''Lab''\<rparr>]"
      and pid = "Some ''p1''" and exc = "''HTTP Error 500''",
      THEN mp, THEN conjunct2, THEN conjunct2, THEN mp]
  have 1: "parse example_config (example_env\<lparr>open_projects := (\<lambda>u vc. Inl ''timed out'')\<rparr>) True empty_state
     = (Some (TransportError ''http://gns3.example.com:3080/v2/projects'' ''timed out''),
        \<lparr>inventory = empty_inventory, cache = Map.empty,
         requests = [''http://gns3.example.com:3080/v2/projects'']\<rparr>)"
    using t1 by (simp add: example_config_def example_env_def empty_state_def u)
  have 2: "parse (example_config\<lparr>project_name := Some ''Other''\<rparr>) example_env True empty_state
     = (Some (NotFound ''GNS3 inventory: project_name not found: Other''),
        \<lparr>inventory = empty_inventory, cache = Map.empty,
         requests = [''http://gns3.example.com:3080/v2/projects'']\<rparr>)"
    using t2 by (simp add: example_config_def example_env_def empty_state_def u f1)
  have 3: "parse example_config (example_env\<lparr>open_nodes := (\<lambda>u vc. Inl ''HTTP Error 500'')\<rparr>) True empty_state
     = (Some (TransportError ''http://gns3.example.com:3080/v2/projects/p1/nodes'' ''HTTP Error 500''),
        \<lparr>inventory = empty_inventory, cache = Map.empty,
         requests = [''http://gns3.example.com:3080/v2/projects'',
                     ''http://gns3.example.com:3080/v2/projects/p1/nodes'']\<rparr>)"
    using t3 by (simp add: example_config_def example_env_def empty_state_def u f2 fmt_def)
  from 1 2 3 show ?thesis by (intro conjI)
qed

end
